theory Spec2Isabelle
  imports Main "HOL-Library.Word" "HOL-Library.Monad_Syntax"
begin

section \<open>The userfaultfd ABI reporter (hack/sizeof.c)\<close>

text \<open>
  The program is a straight line of nineteen \<^verbatim>\<open>printf\<close> calls, written through the two
  macros \<^verbatim>\<open>PRINT_VAL\<close> and \<^verbatim>\<open>PRINT_SIZE\<close>, followed by \<^verbatim>\<open>return 0\<close>. The numbers
  it prints come from \<^verbatim>\<open><linux/userfaultfd.h>\<close>, a header of the platform and not of
  this repository; they are a parameter of the model. So is the behaviour of standard
  output: a write may be buffered, cut short, fail, raise a signal or block, as the
  environment decides.
\<close>

subsection \<open>What the platform headers supply\<close>

text \<open>The nine macro names handed to \<^verbatim>\<open>PRINT_VAL\<close>, in the spelling of the source.\<close>

datatype ioctl_name =
    UFFDIO_REGISTER
  | UFFDIO_UNREGISTER
  | UFFDIO_WAKE
  | UFFDIO_COPY
  | UFFDIO_ZEROPAGE
  | UFFDIO_MOVE
  | UFFDIO_WRITEPROTECT
  | UFFDIO_CONTINUE
  | UFFDIO_POISON

text \<open>The ten structure tags handed to \<^verbatim>\<open>PRINT_SIZE\<close>.\<close>

datatype struct_tag =
    uffd_msg
  | uffdio_api
  | uffdio_range
  | uffdio_register
  | uffdio_copy
  | uffdio_zeropage
  | uffdio_writeprotect
  | uffdio_continue
  | uffdio_poison
  | uffdio_move

text \<open>
  A build environment: the value each \<^verbatim>\<open>UFFDIO_*\<close> macro expands to, as the
  \<^verbatim>\<open>unsigned long\<close> that \<^verbatim>\<open>%lx\<close> reads, and \<^verbatim>\<open>sizeof(struct s)\<close> for each tag, a
  \<^verbatim>\<open>size_t\<close>. The two integer types are those of the target ABI: the program uses the
  record at \<open>('l word, 'z word) headers\<close>, with the widths \<open>'l\<close> and \<open>'z\<close> left open.
\<close>

record ('ulong, 'size) headers =
  ioctl_value :: "ioctl_name \<Rightarrow> 'ulong"
  struct_sizeof :: "struct_tag \<Rightarrow> 'size"

subsection \<open>The preprocessor's stringification operator\<close>

text \<open>
  \<^verbatim>\<open>#s\<close> yields the spelling of the macro argument as written at the call site; the
  argument is not macro-expanded first.
\<close>

fun stringify_ioctl :: "ioctl_name \<Rightarrow> string" where
  "stringify_ioctl UFFDIO_REGISTER = ''UFFDIO_REGISTER''"
| "stringify_ioctl UFFDIO_UNREGISTER = ''UFFDIO_UNREGISTER''"
| "stringify_ioctl UFFDIO_WAKE = ''UFFDIO_WAKE''"
| "stringify_ioctl UFFDIO_COPY = ''UFFDIO_COPY''"
| "stringify_ioctl UFFDIO_ZEROPAGE = ''UFFDIO_ZEROPAGE''"
| "stringify_ioctl UFFDIO_MOVE = ''UFFDIO_MOVE''"
| "stringify_ioctl UFFDIO_WRITEPROTECT = ''UFFDIO_WRITEPROTECT''"
| "stringify_ioctl UFFDIO_CONTINUE = ''UFFDIO_CONTINUE''"
| "stringify_ioctl UFFDIO_POISON = ''UFFDIO_POISON''"

fun stringify_struct :: "struct_tag \<Rightarrow> string" where
  "stringify_struct uffd_msg = ''uffd_msg''"
| "stringify_struct uffdio_api = ''uffdio_api''"
| "stringify_struct uffdio_range = ''uffdio_range''"
| "stringify_struct uffdio_register = ''uffdio_register''"
| "stringify_struct uffdio_copy = ''uffdio_copy''"
| "stringify_struct uffdio_zeropage = ''uffdio_zeropage''"
| "stringify_struct uffdio_writeprotect = ''uffdio_writeprotect''"
| "stringify_struct uffdio_continue = ''uffdio_continue''"
| "stringify_struct uffdio_poison = ''uffdio_poison''"
| "stringify_struct uffdio_move = ''uffdio_move''"

subsection \<open>Number rendering of \<^verbatim>\<open>printf\<close>\<close>

text \<open>The digit alphabet of the \<^verbatim>\<open>x\<close> and \<^verbatim>\<open>u\<close> conversions: lowercase.\<close>

definition digit_chars :: string where
  "digit_chars = ''0123456789abcdef''"

definition digit_char :: "nat \<Rightarrow> char" where
  "digit_char d = digit_chars ! d"

text \<open>
  Most significant digit first, no prefix, no leading zeros, and a single \<^verbatim>\<open>0\<close> for
  zero. Only the bases 10 and 16 are used; a base below 2 is answered with one digit.
\<close>

function render_nat :: "nat \<Rightarrow> nat \<Rightarrow> string" where
  "render_nat b n =
     (if b < 2 \<or> n < b then [digit_char n]
      else render_nat b (n div b) @ [digit_char (n mod b)])"
  by pat_completeness auto
termination
  by (relation "measure snd") auto

definition render_hex :: "nat \<Rightarrow> string" where
  "render_hex n = render_nat 16 n"

definition render_dec :: "nat \<Rightarrow> string" where
  "render_dec n = render_nat 10 n"

subsection \<open>The fragment of \<^verbatim>\<open>printf\<close> formats the program uses\<close>

text \<open>
  A variadic argument as \<^verbatim>\<open>printf\<close> fetches it: a string for \<^verbatim>\<open>%s\<close>, an
  \<^verbatim>\<open>unsigned long\<close> for \<^verbatim>\<open>%lx\<close>, a \<^verbatim>\<open>size_t\<close> for \<^verbatim>\<open>%zu\<close>. The model hands
  each \<^verbatim>\<open>UFFDIO_*\<close> value to \<^verbatim>\<open>%lx\<close> as the \<^verbatim>\<open>unsigned long\<close> the conversion reads;
  the C type that the header's macro expands to is not represented.
\<close>

datatype ('ulong, 'size) arg = Str string | ULong 'ulong | SizeT 'size

text \<open>
  \<^verbatim>\<open>printf\<close> belongs to the C library. The model covers the directives of the two format
  strings of the program, \<^verbatim>\<open>%-20s\<close>, \<^verbatim>\<open>%lx\<close> and \<^verbatim>\<open>%zu\<close>, by parsing them: a
  directive is \<^verbatim>\<open>%\<close>, the flag \<^verbatim>\<open>-\<close> any number of times, an optional decimal width, and
  one of \<^verbatim>\<open>s\<close>, \<^verbatim>\<open>lx\<close>, \<^verbatim>\<open>zu\<close>. Every other directive (the flag \<^verbatim>\<open>0\<close> among
  them) is outside the fragment and yields \<open>None\<close>.

  The format string is scanned one character at a time. The scanner is in ordinary text,
  or inside a directive after \<^verbatim>\<open>%\<close>: reading flags (has \<^verbatim>\<open>-\<close> been seen), reading the
  field width, or after a length modifier \<^verbatim>\<open>l\<close> or \<^verbatim>\<open>z\<close>.
\<close>

datatype scan = Text | Flags bool | Width bool nat | LenL bool nat | LenZ bool nat

definition is_digit :: "char \<Rightarrow> bool" where
  "is_digit c \<longleftrightarrow> c \<in> set ''0123456789''"

definition digit_val :: "char \<Rightarrow> nat" where
  "digit_val c = of_char c - of_char CHR ''0''"

text \<open>
  A field narrower than the width is filled with spaces, on the right under the \<^verbatim>\<open>-\<close>
  flag and on the left otherwise; a longer one is never cut.
\<close>

definition pad_field :: "bool \<Rightarrow> nat \<Rightarrow> string \<Rightarrow> string" where
  "pad_field left w s =
     (if left then s @ replicate (w - length s) CHR '' ''
      else replicate (w - length s) CHR '' '' @ s)"

text \<open>
  The character that ends the flags and width: \<^verbatim>\<open>s\<close> converts at once, \<^verbatim>\<open>l\<close> and
  \<^verbatim>\<open>z\<close> are length modifiers. Anything else is outside the fragment, and so is an
  argument of another type than the conversion fetches: the result is \<open>None\<close>.
\<close>

definition conversion ::
  "bool \<Rightarrow> nat \<Rightarrow> char \<Rightarrow> ('l::len word, 'z::len word) arg list \<Rightarrow> (scan \<times> string \<times> ('l word, 'z word) arg list) option"
where
  "conversion left w c args =
     (if c = CHR ''s'' then
        (case args of Str s # rest \<Rightarrow> Some (Text, pad_field left w s, rest) | _ \<Rightarrow> None)
      else if c = CHR ''l'' then Some (LenL left w, [], args)
      else if c = CHR ''z'' then Some (LenZ left w, [], args)
      else None)"

text \<open>One step of the scanner: the next state, the characters produced, the arguments left.\<close>

fun scan_step ::
  "scan \<Rightarrow> char \<Rightarrow> ('l::len word, 'z::len word) arg list \<Rightarrow> (scan \<times> string \<times> ('l word, 'z word) arg list) option"
where
  "scan_step Text c args =
     (if c = CHR ''%'' then Some (Flags False, [], args) else Some (Text, [c], args))"
| "scan_step (Flags left) c args =
     (if c = CHR ''-'' then Some (Flags True, [], args)
      else if c = CHR ''0'' then None
      else if is_digit c then Some (Width left (digit_val c), [], args)
      else conversion left 0 c args)"
| "scan_step (Width left w) c args =
     (if is_digit c then Some (Width left (10 * w + digit_val c), [], args)
      else conversion left w c args)"
| "scan_step (LenL left w) c args =
     (if c = CHR ''x'' then
        (case args of
           ULong v # rest \<Rightarrow> Some (Text, pad_field left w (render_hex (unat v)), rest)
         | _ \<Rightarrow> None)
      else None)"
| "scan_step (LenZ left w) c args =
     (if c = CHR ''u'' then
        (case args of
           SizeT v # rest \<Rightarrow> Some (Text, pad_field left w (render_dec (unat v)), rest)
         | _ \<Rightarrow> None)
      else None)"

text \<open>The whole format; a directive cut off by the end of the string gives \<open>None\<close>.\<close>

fun vformat :: "scan \<Rightarrow> string \<Rightarrow> ('l::len word, 'z::len word) arg list \<Rightarrow> string option" where
  "vformat st [] args = (if st = Text then Some [] else None)"
| "vformat st (c # fmt) args =
     (case scan_step st c args of
        None \<Rightarrow> None
      | Some (st', out, args') \<Rightarrow> map_option ((@) out) (vformat st' fmt args'))"

subsection \<open>Standard output and the process around it\<close>

text \<open>
  Standard output is a buffered stream on a file the environment provides. What each call
  on the stream does is the environment's choice, and the model takes it from a schedule:
  \<^item> \<open>Send k\<close>: the call succeeds; in its course the first \<open>k\<close> of the characters held by
    the stream (all of them if there are fewer) reach the file and the rest stay buffered.
    \<open>Send 0\<close> is a call that only fills the buffer.
  \<^item> \<open>Fail k keep\<close>: \<open>k\<close> characters reach the file, then the write reports an error
    and the call fails; \<open>keep\<close> tells whether the characters not written stay in the buffer
    or are lost.
  \<^item> \<open>Kill k\<close>: \<open>k\<close> characters reach the file, then the write raises a signal whose
    default action ends the process, as \<^verbatim>\<open>SIGPIPE\<close> on a pipe without reader does. The
    program installs no handler.
  \<^item> \<open>Stall k\<close>: \<open>k\<close> characters reach the file, then the write blocks and never
    returns, as on a full pipe that nobody reads.
\<close>

datatype action = Send nat | Fail nat bool | Kill nat | Stall nat

text \<open>How a run can end inside a call, without the call returning.\<close>

datatype halt = Signalled | Blocked

text \<open>
  A stream: the characters that have reached the file, the characters still buffered, the
  strings it has been asked to write (one entry for each call, kept for the claims about
  the number of writes), and the schedule. The head of \<open>faults\<close> is the action of the next
  call; when the schedule is used up every call sends all there is.
\<close>

record stream =
  device :: string
  pending :: string
  calls :: "string list"
  faults :: "action list"

definition transmit :: "nat \<Rightarrow> stream \<Rightarrow> stream" where
  "transmit k st = st\<lparr>device := device st @ take k (pending st), pending := drop k (pending st)\<rparr>"

text \<open>
  One formatted write of a string. The result is the value \<^verbatim>\<open>printf\<close> returns, the number
  of characters on success and a negative value on an output error, or the way the run
  ended in the call.
\<close>

definition stream_write :: "string \<Rightarrow> stream \<Rightarrow> (halt + int) \<times> stream" where
  "stream_write s st =
     (let st' = st\<lparr>pending := pending st @ s, calls := calls st @ [s], faults := tl (faults st)\<rparr>
      in case faults st of
           [] \<Rightarrow> (Inr (int (length s)), transmit (length (pending st')) st')
         | Send k # _ \<Rightarrow> (Inr (int (length s)), transmit k st')
         | Fail k keep # _ \<Rightarrow>
             (Inr (- 1), if keep then transmit k st' else (transmit k st')\<lparr>pending := []\<rparr>)
         | Kill k # _ \<Rightarrow> (Inl Signalled, transmit k st')
         | Stall k # _ \<Rightarrow> (Inl Blocked, transmit k st'))"

text \<open>
  The flush of the stream at exit writes until the buffer is empty: after a short write it
  writes again, and it gives up at the first error, losing what is left. The recursion
  is over the schedule.
\<close>

fun drain :: "action list \<Rightarrow> stream \<Rightarrow> (halt + unit) \<times> stream" where
  "drain [] st = (Inr (), (transmit (length (pending st)) st)\<lparr>faults := []\<rparr>)"
| "drain (a # as) st =
     (if pending st = [] then (Inr (), st\<lparr>faults := a # as\<rparr>)
      else case a of
             Send k \<Rightarrow> drain as (transmit k st)
           | Fail k keep \<Rightarrow> (Inr (), (transmit k st)\<lparr>pending := [], faults := as\<rparr>)
           | Kill k \<Rightarrow> (Inl Signalled, (transmit k st)\<lparr>faults := as\<rparr>)
           | Stall k \<Rightarrow> (Inl Blocked, (transmit k st)\<lparr>faults := as\<rparr>))"

definition stream_flush :: "stream \<Rightarrow> (halt + unit) \<times> stream" where
  "stream_flush st = drain (faults st) st"

text \<open>
  The characters written to the stream so far and not lost: those in the file followed by
  those still buffered. After a flush that succeeded the buffer is empty and this is the
  text of the file.
\<close>

definition content :: "stream \<Rightarrow> string" where
  "content st = device st @ pending st"

text \<open>
  A stream accepts the writes when no call fails, kills or blocks; the calls may still
  buffer as they like. A stream lets the program return when no call kills or blocks.
\<close>

fun accepts :: "action \<Rightarrow> bool" where
  "accepts (Send k) = True"
| "accepts (Fail k keep) = False"
| "accepts (Kill k) = False"
| "accepts (Stall k) = False"

fun returns :: "action \<Rightarrow> bool" where
  "returns (Send k) = True"
| "returns (Fail k keep) = True"
| "returns (Kill k) = False"
| "returns (Stall k) = False"

definition writable :: "stream \<Rightarrow> bool" where
  "writable st \<longleftrightarrow> list_all accepts (faults st)"

definition nonfatal :: "stream \<Rightarrow> bool" where
  "nonfatal st \<longleftrightarrow> list_all returns (faults st)"

text \<open>
  The process state a C program can reach: its arguments, its environment, standard
  input not yet read, and standard output.
\<close>

record world =
  argv :: "string list"
  environ :: "string list"
  stdin :: string
  stdout :: stream

text \<open>
  The result of a call in a process: \<open>None\<close> when the call is outside the fragment
  modelled (C leaves its behaviour undefined, or the model does not cover the directive),
  otherwise the new process state together with the value returned or the way the process
  ended in the call.
\<close>

type_synonym 'a result = "((halt + 'a) \<times> world) option"

definition write_stdout :: "string \<Rightarrow> world \<Rightarrow> int result" where
  "write_stdout s w = (case stream_write s (stdout w) of (r, st) \<Rightarrow> Some (r, w\<lparr>stdout := st\<rparr>))"

text \<open>\<^verbatim>\<open>printf\<close>: format, then write to standard output.\<close>

definition printf :: "string \<Rightarrow> ('l::len word, 'z::len word) arg list \<Rightarrow> world \<Rightarrow> int result" where
  "printf fmt args w =
     (case vformat Text fmt args of None \<Rightarrow> None | Some s \<Rightarrow> write_stdout s w)"

text \<open>
  A sequence of expression statements: each call is made in the state the one before left,
  its value is dropped, and nothing after a call in which the process ended is run.
\<close>

fun block :: "(world \<Rightarrow> 'a result) list \<Rightarrow> world \<Rightarrow> unit result" where
  "block [] w = Some (Inr (), w)"
| "block (c # cs) w =
     (case c w of
        None \<Rightarrow> None
      | Some (Inl e, w') \<Rightarrow> Some (Inl e, w')
      | Some (Inr v, w') \<Rightarrow> block cs w')"

subsection \<open>The program\<close>

text \<open>\<^verbatim>\<open>#define PRINT_SIZE(s) printf("%-20s %zu\n", #s, sizeof(struct s))\<close>\<close>

definition PRINT_SIZE :: "('l::len word, 'z::len word) headers \<Rightarrow> struct_tag \<Rightarrow> world \<Rightarrow> int result" where
  "PRINT_SIZE h s w =
     printf ''%-20s %zu\<newline>''
       [Str (stringify_struct s), SizeT (struct_sizeof h s) :: ('l word, 'z word) arg] w"

text \<open>\<^verbatim>\<open>#define PRINT_VAL(s) printf("%-20s %lx\n", #s, s)\<close>\<close>

definition PRINT_VAL :: "('l::len word, 'z::len word) headers \<Rightarrow> ioctl_name \<Rightarrow> world \<Rightarrow> int result" where
  "PRINT_VAL h s w =
     printf ''%-20s %lx\<newline>''
       [Str (stringify_ioctl s), ULong (ioctl_value h s) :: ('l word, 'z word) arg] w"

text \<open>
  \<^verbatim>\<open>int main(void)\<close>: the nineteen statements in the order of the source, then
  \<^verbatim>\<open>return 0\<close>.
\<close>

definition main :: "('l::len word, 'z::len word) headers \<Rightarrow> world \<Rightarrow> int result" where
  "main h w =
     (case block
        [PRINT_VAL h UFFDIO_REGISTER,
         PRINT_VAL h UFFDIO_UNREGISTER,
         PRINT_VAL h UFFDIO_WAKE,
         PRINT_VAL h UFFDIO_COPY,
         PRINT_VAL h UFFDIO_ZEROPAGE,
         PRINT_VAL h UFFDIO_MOVE,
         PRINT_VAL h UFFDIO_WRITEPROTECT,
         PRINT_VAL h UFFDIO_CONTINUE,
         PRINT_VAL h UFFDIO_POISON,
         PRINT_SIZE h uffd_msg,
         PRINT_SIZE h uffdio_api,
         PRINT_SIZE h uffdio_range,
         PRINT_SIZE h uffdio_register,
         PRINT_SIZE h uffdio_copy,
         PRINT_SIZE h uffdio_zeropage,
         PRINT_SIZE h uffdio_writeprotect,
         PRINT_SIZE h uffdio_continue,
         PRINT_SIZE h uffdio_poison,
         PRINT_SIZE h uffdio_move] w
      of
        None \<Rightarrow> None
      | Some (Inl e, w') \<Rightarrow> Some (Inl e, w')
      | Some (Inr v, w') \<Rightarrow> Some (Inr 0, w'))"

text \<open>
  The C runtime around \<^verbatim>\<open>main\<close>: when \<^verbatim>\<open>main\<close> returns, \<^verbatim>\<open>exit\<close> flushes standard
  output and the process ends with the value returned as its exit status, whether the flush
  reported an error or not; a signal or a block in the flush ends the run instead. The
  result \<open>Inr n\<close> is the exit status \<open>n\<close>, \<open>Inl Signalled\<close> a process that a signal
  ended, with no exit status, and \<open>Inl Blocked\<close> a process that never ends.
\<close>

definition exit :: "int \<Rightarrow> world \<Rightarrow> (halt + int) \<times> world" where
  "exit status w =
     (case stream_flush (stdout w) of
        (Inl e, st) \<Rightarrow> (Inl e, w\<lparr>stdout := st\<rparr>)
      | (Inr u, st) \<Rightarrow> (Inr status, w\<lparr>stdout := st\<rparr>))"

definition process :: "('l::len word, 'z::len word) headers \<Rightarrow> world \<Rightarrow> int result" where
  "process h w =
     (case main h w of
        None \<Rightarrow> None
      | Some (Inl e, w') \<Rightarrow> Some (Inl e, w')
      | Some (Inr status, w') \<Rightarrow> Some (exit status w'))"

subsection \<open>Reading the output back\<close>

text \<open>
  The claims speak of lines, of a name field and a value field, and of parsing a value
  field as a number. These functions read the output the way a test of it would.
\<close>

text \<open>
  The lines of a text: each newline ends a line, and characters after the last newline
  form a last, unterminated line.
\<close>

primrec lines_of :: "string \<Rightarrow> string list" where
  "lines_of [] = []"
| "lines_of (c # cs) =
     (if c = CHR ''\<newline>'' then [] # lines_of cs
      else (case lines_of cs of [] \<Rightarrow> [[c]] | l # ls \<Rightarrow> (c # l) # ls))"

text \<open>
  The name field of a line is everything before its first space; the value field is what
  follows the run of spaces after the name.
\<close>

definition name_field :: "string \<Rightarrow> string" where
  "name_field l = takeWhile (\<lambda>c. c \<noteq> CHR '' '') l"

definition value_field :: "string \<Rightarrow> string" where
  "value_field l = dropWhile (\<lambda>c. c = CHR '' '') (dropWhile (\<lambda>c. c \<noteq> CHR '' '') l)"

text \<open>
  Reading a numeral in base \<open>b\<close>, as \<^verbatim>\<open>strtoul\<close> would with the lowercase digits:
  every character must be a digit of the base, and there must be at least one.
\<close>

definition digit_of :: "nat \<Rightarrow> char \<Rightarrow> nat option" where
  "digit_of b c = find (\<lambda>d. digit_char d = c) [0..<b]"

fun parse_acc :: "nat \<Rightarrow> nat \<Rightarrow> string \<Rightarrow> nat option" where
  "parse_acc b acc [] = Some acc"
| "parse_acc b acc (c # cs) =
     (case digit_of b c of None \<Rightarrow> None | Some d \<Rightarrow> parse_acc b (acc * b + d) cs)"

definition parse_nat :: "nat \<Rightarrow> string \<Rightarrow> nat option" where
  "parse_nat b s = (if s = [] then None else parse_acc b 0 s)"

subsection \<open>The checklist of the specification, and closed forms\<close>

text \<open>
  The two fixed ordered lists of section 4.1 of the specification: the nine operation
  identifiers (register, unregister, wake, copy, zero-page, move, write-protect, continue,
  poison) and the ten structures (message, API, range, register, copy, zero-page,
  write-protect, continue, poison, move).
\<close>

definition identifier_checklist :: "ioctl_name list" where
  "identifier_checklist =
     [UFFDIO_REGISTER, UFFDIO_UNREGISTER, UFFDIO_WAKE, UFFDIO_COPY, UFFDIO_ZEROPAGE,
      UFFDIO_MOVE, UFFDIO_WRITEPROTECT, UFFDIO_CONTINUE, UFFDIO_POISON]"

definition structure_checklist :: "struct_tag list" where
  "structure_checklist =
     [uffd_msg, uffdio_api, uffdio_range, uffdio_register, uffdio_copy, uffdio_zeropage,
      uffdio_writeprotect, uffdio_continue, uffdio_poison, uffdio_move]"

text \<open>
  Closed forms for the proofs. The text of one line without its newline: the name, spaces
  up to column 20, one more space, and the value in hexadecimal (identifiers) or decimal
  (sizes). That the two macros write exactly these lines is not assumed: it is derived from
  the format strings in \<open>PRINT_VAL_run\<close> and \<open>PRINT_SIZE_run\<close> below.
\<close>

definition identifier_line :: "('l::len word, 'z::len word) headers \<Rightarrow> ioctl_name \<Rightarrow> string" where
  "identifier_line h s =
     stringify_ioctl s @ replicate (20 - length (stringify_ioctl s)) CHR '' '' @ '' ''
       @ render_hex (unat (ioctl_value h s))"

definition size_line :: "('l::len word, 'z::len word) headers \<Rightarrow> struct_tag \<Rightarrow> string" where
  "size_line h s =
     stringify_struct s @ replicate (20 - length (stringify_struct s)) CHR '' '' @ '' ''
       @ render_dec (unat (struct_sizeof h s))"

definition report_lines :: "('l::len word, 'z::len word) headers \<Rightarrow> string list" where
  "report_lines h = map (identifier_line h) identifier_checklist @ map (size_line h) structure_checklist"

text \<open>
  A sequence of writes on a stream, one call for each string, ended by the first call in
  which the run ends; \<open>main_run\<close> below shows that the program is this sequence on the
  nineteen lines.
\<close>

fun write_all :: "string list \<Rightarrow> stream \<Rightarrow> (halt + unit) \<times> stream" where
  "write_all [] st = (Inr (), st)"
| "write_all (s # ss) st =
     (case stream_write s st of
        (Inl e, st') \<Rightarrow> (Inl e, st')
      | (Inr v, st') \<Rightarrow> write_all ss st')"

subsection \<open>Concrete inputs\<close>

text \<open>
  One header set, with the numbers of Linux on x86-64 (64-bit \<^verbatim>\<open>unsigned long\<close> and
  \<^verbatim>\<open>size_t\<close>), and process states to run it in. The first is a fresh process
  on a stream that sends every call at once.
\<close>

definition sample_ioctl :: "ioctl_name \<Rightarrow> 64 word" where
  "sample_ioctl s = (case s of
      UFFDIO_REGISTER \<Rightarrow> 0xc020aa00
    | UFFDIO_UNREGISTER \<Rightarrow> 0x8010aa01
    | UFFDIO_WAKE \<Rightarrow> 0x8010aa02
    | UFFDIO_COPY \<Rightarrow> 0xc028aa03
    | UFFDIO_ZEROPAGE \<Rightarrow> 0xc020aa04
    | UFFDIO_MOVE \<Rightarrow> 0xc028aa05
    | UFFDIO_WRITEPROTECT \<Rightarrow> 0xc018aa06
    | UFFDIO_CONTINUE \<Rightarrow> 0xc020aa07
    | UFFDIO_POISON \<Rightarrow> 0xc020aa08)"

definition sample_sizeof :: "struct_tag \<Rightarrow> 64 word" where
  "sample_sizeof s = (case s of
      uffd_msg \<Rightarrow> 32
    | uffdio_api \<Rightarrow> 24
    | uffdio_range \<Rightarrow> 16
    | uffdio_register \<Rightarrow> 32
    | uffdio_copy \<Rightarrow> 40
    | uffdio_zeropage \<Rightarrow> 32
    | uffdio_writeprotect \<Rightarrow> 24
    | uffdio_continue \<Rightarrow> 32
    | uffdio_poison \<Rightarrow> 32
    | uffdio_move \<Rightarrow> 40)"

definition sample_headers :: "(64 word, 64 word) headers" where
  "sample_headers = \<lparr>ioctl_value = sample_ioctl, struct_sizeof = sample_sizeof\<rparr>"

definition fresh_stdout :: stream where
  "fresh_stdout = \<lparr>device = [], pending = [], calls = [], faults = []\<rparr>"

definition sample_world :: world where
  "sample_world = \<lparr>argv = [''./sizeof''], environ = [], stdin = [], stdout = fresh_stdout\<rparr>"

text \<open>Other arguments, environment and input, and a stream that buffers some of the calls.\<close>

definition other_world :: world where
  "other_world =
     \<lparr>argv = [''./sizeof'', ''--help'', ''x''], environ = [''LANG=C''], stdin = ''input'',
      stdout = fresh_stdout\<lparr>faults := [Send 0, Send 5, Send 0]\<rparr>\<rparr>"

text \<open>A file on which every write reports an error, as on a full disk.\<close>

definition erroring_world :: world where
  "erroring_world = sample_world\<lparr>stdout := fresh_stdout\<lparr>faults := replicate 20 (Fail 0 False)\<rparr>\<rparr>"

text \<open>
  A pipe without reader, seen through a fully buffered stream: the nineteen calls fill the
  buffer, and the flush at exit raises the signal.
\<close>

definition closed_pipe_world :: world where
  "closed_pipe_world =
     sample_world\<lparr>stdout := fresh_stdout\<lparr>faults := replicate 19 (Send 0) @ [Kill 0]\<rparr>\<rparr>"

text \<open>The same pipe seen through an unbuffered stream: the first write raises the signal.\<close>

definition unbuffered_pipe_world :: world where
  "unbuffered_pipe_world = sample_world\<lparr>stdout := fresh_stdout\<lparr>faults := [Kill 0]\<rparr>\<rparr>"

section \<open>Properties\<close>

declare render_nat.simps [simp del]

subsection \<open>Lines\<close>

lemma lines_of_line: "CHR ''\<newline>'' \<notin> set l \<Longrightarrow> lines_of (l @ CHR ''\<newline>'' # rest) = l # lines_of rest"
  by (induction l) auto

lemma lines_of_concat:
  "\<forall>l\<in>set ls. CHR ''\<newline>'' \<notin> set l \<Longrightarrow> lines_of (concat (map (\<lambda>l. l @ ''\<newline>'') ls)) = ls"
  by (induction ls) (simp_all add: lines_of_line)

subsection \<open>Numbers\<close>

lemma length_digit_chars: "length digit_chars = 16"
  by (simp add: digit_chars_def)

lemma distinct_digit_chars: "distinct digit_chars"
  by (simp add: digit_chars_def)

lemma digit_char_mem: "d < b \<Longrightarrow> b \<le> 16 \<Longrightarrow> digit_char d \<in> set (take b digit_chars)"
proof -
  assume d: "d < b" and b: "b \<le> 16"
  have "take b digit_chars ! d = digit_chars ! d" using d by simp
  moreover have "d < length (take b digit_chars)" using d b by (simp add: length_digit_chars)
  ultimately show ?thesis unfolding digit_char_def by (metis nth_mem)
qed

lemma render_nat_digits: "2 \<le> b \<Longrightarrow> b \<le> 16 \<Longrightarrow> set (render_nat b n) \<subseteq> set (take b digit_chars)"
proof (induction b n rule: render_nat.induct)
  case (1 b n)
  show ?case
  proof (cases "n < b")
    case True
    with 1(3) show ?thesis by (simp add: render_nat.simps [of b n] digit_char_mem)
  next
    case False
    with 1 have "set (render_nat b (n div b)) \<subseteq> set (take b digit_chars)" by simp
    moreover have "digit_char (n mod b) \<in> set (take b digit_chars)"
      using 1(2,3) by (intro digit_char_mem) simp_all
    ultimately show ?thesis using False 1(2) by (simp add: render_nat.simps [of b n])
  qed
qed

lemma render_nat_nonempty: "render_nat b n \<noteq> []"
  by (simp add: render_nat.simps [of b n])

lemma digit_char_inj: "d < 16 \<Longrightarrow> e < 16 \<Longrightarrow> digit_char d = digit_char e \<longleftrightarrow> d = e"
  unfolding digit_char_def using distinct_digit_chars length_digit_chars
  by (simp add: nth_eq_iff_index_eq)

lemma digit_of_digit_char: "d < b \<Longrightarrow> b \<le> 16 \<Longrightarrow> digit_of b (digit_char d) = Some d"
  unfolding digit_of_def find_Some_iff
  by (rule exI [of _ d]) (auto simp: digit_char_inj)

lemma parse_acc_append:
  "parse_acc b acc (xs @ ys) = (case parse_acc b acc xs of None \<Rightarrow> None | Some a \<Rightarrow> parse_acc b a ys)"
  by (induction xs arbitrary: acc) (simp_all split: option.splits)

lemma parse_acc_render: "2 \<le> b \<Longrightarrow> b \<le> 16 \<Longrightarrow> parse_acc b 0 (render_nat b n) = Some n"
proof (induction b n rule: render_nat.induct)
  case (1 b n)
  show ?case
  proof (cases "n < b")
    case True
    with 1(3) show ?thesis by (simp add: render_nat.simps [of b n] digit_of_digit_char)
  next
    case False
    with 1 have "parse_acc b 0 (render_nat b (n div b)) = Some (n div b)" by simp
    moreover have "digit_of b (digit_char (n mod b)) = Some (n mod b)"
      using 1(2,3) by (intro digit_of_digit_char) simp_all
    ultimately show ?thesis using False 1(2)
      by (simp add: render_nat.simps [of b n] parse_acc_append)
  qed
qed

lemma parse_nat_render: "2 \<le> b \<Longrightarrow> b \<le> 16 \<Longrightarrow> parse_nat b (render_nat b n) = Some n"
  by (simp add: parse_nat_def render_nat_nonempty parse_acc_render)

subsection \<open>Running the program\<close>

lemma fmt_val:
  "vformat Text ''%-20s %lx\<newline>'' [Str n, ULong v :: ('l::len word, 'z::len word) arg]
     = Some (n @ replicate (20 - length n) CHR '' '' @ '' '' @ render_hex (unat v) @ ''\<newline>'')"
  by (simp add: is_digit_def digit_val_def conversion_def pad_field_def)

lemma fmt_size:
  "vformat Text ''%-20s %zu\<newline>'' [Str n, SizeT v :: ('l::len word, 'z::len word) arg]
     = Some (n @ replicate (20 - length n) CHR '' '' @ '' '' @ render_dec (unat v) @ ''\<newline>'')"
  by (simp add: is_digit_def digit_val_def conversion_def pad_field_def)

lemma PRINT_VAL_run: "PRINT_VAL h s = write_stdout (identifier_line h s @ ''\<newline>'')"
  unfolding PRINT_VAL_def printf_def fmt_val identifier_line_def by (rule ext) simp

lemma PRINT_SIZE_run: "PRINT_SIZE h s = write_stdout (size_line h s @ ''\<newline>'')"
  unfolding PRINT_SIZE_def printf_def fmt_size size_line_def by (rule ext) simp

lemma block_write_stdout:
  "block (map write_stdout ss) w =
     (case write_all ss (stdout w) of
        (Inl e, st) \<Rightarrow> Some (Inl e, w\<lparr>stdout := st\<rparr>)
      | (Inr u, st) \<Rightarrow> Some (Inr (), w\<lparr>stdout := st\<rparr>))"
proof (induction ss arbitrary: w)
  case Nil
  show ?case by simp
next
  case (Cons s ss)
  obtain r st where step: "stream_write s (stdout w) = (r, st)" by (cases "stream_write s (stdout w)")
  show ?case
  proof (cases r)
    case (Inl e)
    then show ?thesis using step by (simp add: write_stdout_def)
  next
    case (Inr v)
    then show ?thesis using step Cons.IH [of "w\<lparr>stdout := st\<rparr>"]
      by (simp add: write_stdout_def split: prod.splits sum.splits)
  qed
qed

lemma main_run:
  "main h w =
     (case write_all (map (\<lambda>l. l @ ''\<newline>'') (report_lines h)) (stdout w) of
        (Inl e, st) \<Rightarrow> Some (Inl e, w\<lparr>stdout := st\<rparr>)
      | (Inr u, st) \<Rightarrow> Some (Inr 0, w\<lparr>stdout := st\<rparr>))"
proof -
  have "main h w =
     (case block (map write_stdout (map (\<lambda>l. l @ ''\<newline>'') (report_lines h))) w of
        None \<Rightarrow> None
      | Some (Inl e, w') \<Rightarrow> Some (Inl e, w')
      | Some (Inr v, w') \<Rightarrow> Some (Inr 0, w'))"
    unfolding main_def PRINT_VAL_run PRINT_SIZE_run report_lines_def identifier_checklist_def
      structure_checklist_def
    by simp
  then show ?thesis
    unfolding block_write_stdout by (simp split: prod.splits sum.splits)
qed

lemma process_run:
  "process h w =
     (case write_all (map (\<lambda>l. l @ ''\<newline>'') (report_lines h)) (stdout w) of
        (Inl e, st) \<Rightarrow> Some (Inl e, w\<lparr>stdout := st\<rparr>)
      | (Inr u, st) \<Rightarrow>
          (case stream_flush st of
             (Inl e, st') \<Rightarrow> Some (Inl e, w\<lparr>stdout := st'\<rparr>)
           | (Inr u', st') \<Rightarrow> Some (Inr 0, w\<lparr>stdout := st'\<rparr>)))"
  unfolding process_def main_run exit_def by (simp split: prod.splits sum.splits)

text \<open>What one call does to the stream.\<close>

lemma calls_stream_write: "calls (snd (stream_write s st)) = calls st @ [s]"
  by (simp add: stream_write_def transmit_def Let_def split: list.splits action.splits)

lemma faults_stream_write: "faults (snd (stream_write s st)) = tl (faults st)"
  by (simp add: stream_write_def transmit_def Let_def split: list.splits action.splits)

lemma content_transmit: "content (transmit k st) = content st"
  by (simp add: content_def transmit_def)

lemma stream_write_writable:
  assumes "writable st"
  shows "fst (stream_write s st) = Inr (int (length s))"
    and "content (snd (stream_write s st)) = content st @ s"
    and "writable (snd (stream_write s st))"
proof -
  show "fst (stream_write s st) = Inr (int (length s))"
    using assms by (auto simp: stream_write_def writable_def Let_def split: list.splits action.splits)
  define st' where
    "st' = st\<lparr>pending := pending st @ s, calls := calls st @ [s], faults := tl (faults st)\<rparr>"
  have "\<exists>k. snd (stream_write s st) = transmit k st'"
    using assms
    by (auto simp: stream_write_def writable_def Let_def st'_def split: list.splits action.splits)
  then obtain k where "snd (stream_write s st) = transmit k st'" by blast
  then have "content (snd (stream_write s st)) = content st'"
    by (simp add: content_transmit)
  also have "\<dots> = content st @ s"
    by (simp add: content_def st'_def)
  finally show "content (snd (stream_write s st)) = content st @ s" .
  show "writable (snd (stream_write s st))"
    using assms unfolding writable_def faults_stream_write by (cases "faults st") simp_all
qed

lemma stream_write_nonfatal:
  assumes "nonfatal st"
  shows "\<exists>v. fst (stream_write s st) = Inr v"
    and "nonfatal (snd (stream_write s st))"
proof -
  show "\<exists>v. fst (stream_write s st) = Inr v"
    using assms by (auto simp: stream_write_def nonfatal_def Let_def split: list.splits action.splits)
  show "nonfatal (snd (stream_write s st))"
    using assms unfolding nonfatal_def faults_stream_write by (cases "faults st") simp_all
qed

text \<open>What the sequence of calls does.\<close>

lemma write_all_writable:
  "writable st \<Longrightarrow>
     \<exists>st'. write_all ss st = (Inr (), st') \<and> content st' = content st @ concat ss
       \<and> calls st' = calls st @ ss \<and> writable st'"
proof (induction ss arbitrary: st)
  case Nil
  then show ?case by simp
next
  case (Cons s ss)
  obtain r st1 where step: "stream_write s st = (r, st1)" by (cases "stream_write s st")
  from stream_write_writable [OF Cons.prems, of s] calls_stream_write [of s st] step
  have r: "r = Inr (int (length s))" and c: "content st1 = content st @ s"
    and w: "writable st1" and k: "calls st1 = calls st @ [s]"
    by simp_all
  from Cons.IH [OF w] obtain st' where
    "write_all ss st1 = (Inr (), st')" "content st' = content st1 @ concat ss"
    "calls st' = calls st1 @ ss" "writable st'"
    by blast
  then show ?case using step r c k by simp
qed

lemma write_all_nonfatal:
  "nonfatal st \<Longrightarrow> \<exists>st'. write_all ss st = (Inr (), st') \<and> calls st' = calls st @ ss \<and> nonfatal st'"
proof (induction ss arbitrary: st)
  case Nil
  then show ?case by simp
next
  case (Cons s ss)
  obtain r st1 where step: "stream_write s st = (r, st1)" by (cases "stream_write s st")
  from stream_write_nonfatal [OF Cons.prems, of s] calls_stream_write [of s st] step
  obtain v where r: "r = Inr v" and w: "nonfatal st1" and k: "calls st1 = calls st @ [s]"
    by auto
  from Cons.IH [OF w] obtain st' where
    "write_all ss st1 = (Inr (), st')" "calls st' = calls st1 @ ss" "nonfatal st'"
    by blast
  then show ?case using step r k by simp
qed

lemma write_all_calls:
  "\<exists>n\<le>length ss. calls (snd (write_all ss st)) = calls st @ take n ss
     \<and> (fst (write_all ss st) = Inr () \<longrightarrow> n = length ss)"
proof (induction ss arbitrary: st)
  case Nil
  show ?case by simp
next
  case (Cons s ss)
  obtain r st1 where step: "stream_write s st = (r, st1)" by (cases "stream_write s st")
  have k: "calls st1 = calls st @ [s]" using calls_stream_write [of s st] step by simp
  show ?case
  proof (cases r)
    case (Inl e)
    then have "calls (snd (write_all (s # ss) st)) = calls st @ take 1 (s # ss)"
      and "fst (write_all (s # ss) st) \<noteq> Inr ()"
      using step k by simp_all
    then show ?thesis by (intro exI [of _ 1]) simp
  next
    case (Inr v)
    from Cons.IH [of st1] obtain n where
      n: "n \<le> length ss" "calls (snd (write_all ss st1)) = calls st1 @ take n ss"
        "fst (write_all ss st1) = Inr () \<longrightarrow> n = length ss"
      by blast
    then show ?thesis using step Inr k by (intro exI [of _ "Suc n"]) simp
  qed
qed

text \<open>What the flush at exit does.\<close>

lemma drain_accepts:
  "list_all accepts as \<Longrightarrow>
     \<exists>st'. drain as st = (Inr (), st') \<and> device st' = device st @ pending st \<and> pending st' = []
       \<and> calls st' = calls st \<and> list_all accepts (faults st')"
proof (induction as arbitrary: st)
  case Nil
  show ?case by (simp add: transmit_def)
next
  case (Cons a as)
  show ?case
  proof (cases "pending st = []")
    case True
    then show ?thesis using Cons.prems by simp
  next
    case False
    from Cons.prems obtain k where a: "a = Send k" and as: "list_all accepts as"
      by (cases a) simp_all
    from Cons.IH [OF as, of "transmit k st"] obtain st' where
      "drain as (transmit k st) = (Inr (), st')"
      "device st' = device (transmit k st) @ pending (transmit k st)" "pending st' = []"
      "calls st' = calls (transmit k st)" "list_all accepts (faults st')"
      by blast
    then show ?thesis using False a by (simp add: transmit_def)
  qed
qed

lemma drain_returns:
  "list_all returns as \<Longrightarrow> \<exists>st'. drain as st = (Inr (), st') \<and> calls st' = calls st"
proof (induction as arbitrary: st)
  case Nil
  show ?case by (simp add: transmit_def)
next
  case (Cons a as)
  show ?case
  proof (cases "pending st = []")
    case True
    then show ?thesis by simp
  next
    case False
    from Cons.prems have as: "list_all returns as" by simp
    show ?thesis
    proof (cases a)
      case (Send k)
      from Cons.IH [OF as, of "transmit k st"] show ?thesis
        using False Send by (simp add: transmit_def)
    next
      case (Fail k keep)
      then show ?thesis using False by (simp add: transmit_def)
    next
      case (Kill k)
      then show ?thesis using Cons.prems by simp
    next
      case (Stall k)
      then show ?thesis using Cons.prems by simp
    qed
  qed
qed

lemma calls_drain: "calls (snd (drain as st)) = calls st"
proof (induction as arbitrary: st)
  case Nil
  show ?case by (simp add: transmit_def)
next
  case (Cons a as)
  show ?case
  proof (cases a)
    case (Send k)
    then show ?thesis using Cons.IH [of "transmit k st"] by (simp add: transmit_def)
  qed (simp_all add: transmit_def)
qed

text \<open>The whole run on a stream that accepts the writes.\<close>

lemma process_content:
  assumes "writable (stdout w)"
  shows "\<exists>w'. process h w = Some (Inr 0, w')
           \<and> content (stdout w') = content (stdout w) @ concat (map (\<lambda>l. l @ ''\<newline>'') (report_lines h))
           \<and> pending (stdout w') = []"
proof -
  from write_all_writable [OF assms, of "map (\<lambda>l. l @ ''\<newline>'') (report_lines h)"]
  obtain st where
    st: "write_all (map (\<lambda>l. l @ ''\<newline>'') (report_lines h)) (stdout w) = (Inr (), st)"
      "content st = content (stdout w) @ concat (map (\<lambda>l. l @ ''\<newline>'') (report_lines h))"
      "writable st"
    by blast
  from drain_accepts [of "faults st" st] st(3) obtain st' where
    st': "stream_flush st = (Inr (), st')" "device st' = device st @ pending st" "pending st' = []"
    by (auto simp: writable_def stream_flush_def)
  have "process h w = Some (Inr 0, w\<lparr>stdout := st'\<rparr>)"
    by (simp add: process_run st(1) st'(1))
  moreover have "content (stdout (w\<lparr>stdout := st'\<rparr>)) =
      content (stdout w) @ concat (map (\<lambda>l. l @ ''\<newline>'') (report_lines h))"
    using st(2) st'(2,3) by (simp add: content_def)
  moreover have "pending (stdout (w\<lparr>stdout := st'\<rparr>)) = []"
    using st'(3) by simp
  ultimately show ?thesis by blast
qed

subsection \<open>The shape of a line\<close>

lemma render_hex_digits: "set (render_hex n) \<subseteq> set ''0123456789abcdef''"
  using render_nat_digits [of 16 n] by (simp add: render_hex_def digit_chars_def)

lemma render_dec_digits: "set (render_dec n) \<subseteq> set ''0123456789''"
  using render_nat_digits [of 10 n] by (simp add: render_dec_def digit_chars_def)

lemma render_hex_nonempty: "render_hex n \<noteq> []"
  by (simp add: render_hex_def render_nat_nonempty)

lemma render_dec_nonempty: "render_dec n \<noteq> []"
  by (simp add: render_dec_def render_nat_nonempty)

lemma parse_render_hex: "parse_nat 16 (render_hex n) = Some n"
  by (simp add: render_hex_def parse_nat_render)

lemma parse_render_dec: "parse_nat 10 (render_dec n) = Some n"
  by (simp add: render_dec_def parse_nat_render)

lemma stringify_ioctl_chars: "set (stringify_ioctl s) \<subseteq> set ''ABCDEFGHIJKLMNOPQRSTUVWXYZ_''"
  by (cases s) simp_all

lemma stringify_struct_chars: "set (stringify_struct s) \<subseteq> set ''abcdefghijklmnopqrstuvwxyz_''"
  by (cases s) simp_all

lemma stringify_ioctl_length: "length (stringify_ioctl s) \<le> 19"
  by (cases s) simp_all

lemma stringify_struct_length: "length (stringify_struct s) \<le> 19"
  by (cases s) simp_all

text \<open>A line made of a name, padding, the separating space and a value, taken apart again.\<close>

lemma spaces_shift: "replicate k c @ c # v = c # replicate k c @ v"
  by (induction k) simp_all

lemma name_field_line:
  assumes "CHR '' '' \<notin> set n"
  shows "name_field (n @ replicate k CHR '' '' @ CHR '' '' # v) = n"
proof -
  have "\<forall>c\<in>set n. c \<noteq> CHR '' ''" using assms by blast
  then have "takeWhile (\<lambda>c. c \<noteq> CHR '' '') (n @ CHR '' '' # replicate k CHR '' '' @ v) = n"
    by (induction n) simp_all
  then show ?thesis unfolding name_field_def spaces_shift .
qed

lemma value_field_line:
  assumes n: "CHR '' '' \<notin> set n" and v: "CHR '' '' \<notin> set v"
  shows "value_field (n @ replicate k CHR '' '' @ CHR '' '' # v) = v"
proof -
  have "\<forall>c\<in>set n. c \<noteq> CHR '' ''" using n by blast
  then have "dropWhile (\<lambda>c. c \<noteq> CHR '' '') (n @ CHR '' '' # replicate k CHR '' '' @ v)
          = CHR '' '' # replicate k CHR '' '' @ v"
    by (induction n) simp_all
  moreover have "dropWhile (\<lambda>c. c = CHR '' '') v = v"
    using v by (cases v) auto
  then have "dropWhile (\<lambda>c. c = CHR '' '') (replicate k CHR '' '' @ v) = v"
    by (induction k) simp_all
  ultimately show ?thesis unfolding value_field_def spaces_shift by simp
qed

lemma space_notin_hex: "CHR '' '' \<notin> set (render_hex n)"
  using render_hex_digits [of n] by auto

lemma space_notin_dec: "CHR '' '' \<notin> set (render_dec n)"
  using render_dec_digits [of n] by auto

lemma newline_notin_hex: "CHR ''\<newline>'' \<notin> set (render_hex n)"
  using render_hex_digits [of n] by auto

lemma newline_notin_dec: "CHR ''\<newline>'' \<notin> set (render_dec n)"
  using render_dec_digits [of n] by auto

lemma space_notin_ioctl: "CHR '' '' \<notin> set (stringify_ioctl s)"
  using stringify_ioctl_chars [of s] by auto

lemma space_notin_struct: "CHR '' '' \<notin> set (stringify_struct s)"
  using stringify_struct_chars [of s] by auto

lemma newline_notin_ioctl: "CHR ''\<newline>'' \<notin> set (stringify_ioctl s)"
  using stringify_ioctl_chars [of s] by auto

lemma newline_notin_struct: "CHR ''\<newline>'' \<notin> set (stringify_struct s)"
  using stringify_struct_chars [of s] by auto

lemma name_field_identifier_line: "name_field (identifier_line h s) = stringify_ioctl s"
  unfolding identifier_line_def using name_field_line [OF space_notin_ioctl] by simp

lemma name_field_size_line: "name_field (size_line h s) = stringify_struct s"
  unfolding size_line_def using name_field_line [OF space_notin_struct] by simp

lemma value_field_identifier_line:
  "value_field (identifier_line h s) = render_hex (unat (ioctl_value h s))"
  unfolding identifier_line_def
  using value_field_line [OF space_notin_ioctl space_notin_hex] by simp

lemma value_field_size_line:
  "value_field (size_line h s) = render_dec (unat (struct_sizeof h s))"
  unfolding size_line_def
  using value_field_line [OF space_notin_struct space_notin_dec] by simp

lemma newline_notin_identifier_line: "CHR ''\<newline>'' \<notin> set (identifier_line h s)"
  by (simp add: identifier_line_def newline_notin_ioctl newline_notin_hex)

lemma newline_notin_size_line: "CHR ''\<newline>'' \<notin> set (size_line h s)"
  by (simp add: size_line_def newline_notin_struct newline_notin_dec)

lemma newline_notin_report: "\<forall>l\<in>set (report_lines h). CHR ''\<newline>'' \<notin> set l"
  by (auto simp: report_lines_def newline_notin_identifier_line newline_notin_size_line)

lemma length_report_lines: "length (report_lines h) = 19"
  by (simp add: report_lines_def identifier_checklist_def structure_checklist_def)

lemma process_lines:
  assumes "writable (stdout w)"
  shows "\<exists>w' out. process h w = Some (Inr 0, w') \<and> content (stdout w') = content (stdout w) @ out
           \<and> pending (stdout w') = []
           \<and> out = concat (map (\<lambda>l. l @ ''\<newline>'') (report_lines h))
           \<and> lines_of out = report_lines h"
  using process_content [OF assms, of h] lines_of_concat [OF newline_notin_report, of h] by auto

subsection \<open>The report for the sample headers\<close>

lemma writable_sample: "writable (stdout sample_world)"
  by (simp add: sample_world_def fresh_stdout_def writable_def)

lemma replicate_numeral: "replicate (numeral k) x = x # replicate (pred_numeral k) x"
  by (simp add: numeral_eq_Suc)

lemma sample_identifier_lines:
  "map (identifier_line sample_headers) identifier_checklist =
    [''UFFDIO_REGISTER      c020aa00'',
     ''UFFDIO_UNREGISTER    8010aa01'',
     ''UFFDIO_WAKE          8010aa02'',
     ''UFFDIO_COPY          c028aa03'',
     ''UFFDIO_ZEROPAGE      c020aa04'',
     ''UFFDIO_MOVE          c028aa05'',
     ''UFFDIO_WRITEPROTECT  c018aa06'',
     ''UFFDIO_CONTINUE      c020aa07'',
     ''UFFDIO_POISON        c020aa08'']"
  by (simp add: identifier_checklist_def identifier_line_def sample_headers_def sample_ioctl_def
      render_hex_def render_nat.simps digit_char_def digit_chars_def replicate_numeral)

lemma sample_size_lines:
  "map (size_line sample_headers) structure_checklist =
    [''uffd_msg             32'',
     ''uffdio_api           24'',
     ''uffdio_range         16'',
     ''uffdio_register      32'',
     ''uffdio_copy          40'',
     ''uffdio_zeropage      32'',
     ''uffdio_writeprotect  24'',
     ''uffdio_continue      32'',
     ''uffdio_poison        32'',
     ''uffdio_move          40'']"
  by (simp add: structure_checklist_def size_line_def sample_headers_def sample_sizeof_def
      render_dec_def render_nat.simps digit_char_def digit_chars_def replicate_numeral)


section \<open>The claims\<close>

subsection \<open>The nineteen lines and their order\<close>

lemma report_names:
  "map name_field (report_lines h) =
     map stringify_ioctl identifier_checklist @ map stringify_struct structure_checklist"
  by (simp add: report_lines_def name_field_identifier_line name_field_size_line)

lemma report_line_nonempty: "l \<in> set (report_lines h) \<Longrightarrow> l \<noteq> []"
  by (auto simp: report_lines_def identifier_line_def size_line_def)

text \<open>
  Claim C1. On a standard output that accepts the writes, every run ends with exit status 0,
  leaves nothing in the buffer and has appended exactly nineteen newline-terminated lines:
  the nine identifier lines in the order register,
  unregister, wake, copy, zero-page, move, write-protect, continue, poison, then the ten size
  lines in the order message, API, range, register, copy, zero-page, write-protect, continue,
  poison, move. No line is empty and nothing follows the last newline.
\<close>

theorem report_is_nineteen_lines_in_order:
  assumes "writable (stdout w)"
  shows "\<exists>w' out. process h w = Some (Inr 0, w') \<and> content (stdout w') = content (stdout w) @ out
           \<and> pending (stdout w') = []
           \<and> out = concat (map (\<lambda>l. l @ ''\<newline>'') (lines_of out))
           \<and> length (lines_of out) = 19
           \<and> map name_field (lines_of out) =
               [''UFFDIO_REGISTER'', ''UFFDIO_UNREGISTER'', ''UFFDIO_WAKE'', ''UFFDIO_COPY'',
                ''UFFDIO_ZEROPAGE'', ''UFFDIO_MOVE'', ''UFFDIO_WRITEPROTECT'', ''UFFDIO_CONTINUE'',
                ''UFFDIO_POISON'',
                ''uffd_msg'', ''uffdio_api'', ''uffdio_range'', ''uffdio_register'', ''uffdio_copy'',
                ''uffdio_zeropage'', ''uffdio_writeprotect'', ''uffdio_continue'', ''uffdio_poison'',
                ''uffdio_move'']
           \<and> [] \<notin> set (lines_of out)"
proof -
  from process_lines [OF assms, of h] obtain w' out where
    run: "process h w = Some (Inr 0, w')" "content (stdout w') = content (stdout w) @ out"
      "pending (stdout w') = []" and
    out: "out = concat (map (\<lambda>l. l @ ''\<newline>'') (report_lines h))" and
    ls: "lines_of out = report_lines h"
    by blast
  have "map name_field (lines_of out) =
          map stringify_ioctl identifier_checklist @ map stringify_struct structure_checklist"
    unfolding ls by (rule report_names)
  then have names: "map name_field (lines_of out) =
               [''UFFDIO_REGISTER'', ''UFFDIO_UNREGISTER'', ''UFFDIO_WAKE'', ''UFFDIO_COPY'',
                ''UFFDIO_ZEROPAGE'', ''UFFDIO_MOVE'', ''UFFDIO_WRITEPROTECT'', ''UFFDIO_CONTINUE'',
                ''UFFDIO_POISON'',
                ''uffd_msg'', ''uffdio_api'', ''uffdio_range'', ''uffdio_register'', ''uffdio_copy'',
                ''uffdio_zeropage'', ''uffdio_writeprotect'', ''uffdio_continue'', ''uffdio_poison'',
                ''uffdio_move'']"
    by (simp add: identifier_checklist_def structure_checklist_def)
  have "out = concat (map (\<lambda>l. l @ ''\<newline>'') (lines_of out))"
    using out ls by simp
  moreover have "length (lines_of out) = 19"
    unfolding ls by (rule length_report_lines)
  moreover have "[] \<notin> set (lines_of out)"
    unfolding ls using report_line_nonempty [of "[]" h] by blast
  ultimately show ?thesis using run names by (intro exI [of _ w'] exI [of _ out] conjI)
qed

text \<open>The report for the sample headers on a fresh process, line by line.\<close>

theorem report_is_nineteen_lines_in_order_witness:
  "writable (stdout sample_world) \<and>
   (\<exists>w'. process sample_headers sample_world = Some (Inr 0, w') \<and>
      lines_of (content (stdout w')) =
        [''UFFDIO_REGISTER      c020aa00'',
         ''UFFDIO_UNREGISTER    8010aa01'',
         ''UFFDIO_WAKE          8010aa02'',
         ''UFFDIO_COPY          c028aa03'',
         ''UFFDIO_ZEROPAGE      c020aa04'',
         ''UFFDIO_MOVE          c028aa05'',
         ''UFFDIO_WRITEPROTECT  c018aa06'',
         ''UFFDIO_CONTINUE      c020aa07'',
         ''UFFDIO_POISON        c020aa08'',
         ''uffd_msg             32'',
         ''uffdio_api           24'',
         ''uffdio_range         16'',
         ''uffdio_register      32'',
         ''uffdio_copy          40'',
         ''uffdio_zeropage      32'',
         ''uffdio_writeprotect  24'',
         ''uffdio_continue      32'',
         ''uffdio_poison        32'',
         ''uffdio_move          40''] \<and>
      length (lines_of (content (stdout w'))) = 19)"
proof -
  from report_is_nineteen_lines_in_order [OF writable_sample, of sample_headers]
  obtain w' out where
    run: "process sample_headers sample_world = Some (Inr 0, w')"
      "content (stdout w') = content (stdout sample_world) @ out"
      "length (lines_of out) = 19"
    by blast
  have "content (stdout sample_world) = []"
    by (simp add: sample_world_def fresh_stdout_def content_def)
  with run have c: "content (stdout w') = out" by simp
  from process_lines [OF writable_sample, of sample_headers] obtain v' report where
    "process sample_headers sample_world = Some (Inr 0, v')"
    "content (stdout v') = content (stdout sample_world) @ report"
    "lines_of report = report_lines sample_headers"
    by blast
  with run(1) \<open>content (stdout sample_world) = []\<close>
  have "lines_of (content (stdout w')) = report_lines sample_headers"
    by simp
  then have "lines_of (content (stdout w')) =
      map (identifier_line sample_headers) identifier_checklist @ map (size_line sample_headers) structure_checklist"
    by (simp add: report_lines_def)
  then show ?thesis
    unfolding sample_identifier_lines sample_size_lines using run(1,3) c writable_sample by simp
qed

subsection \<open>The two fields of a line\<close>

lemma take_report_lines: "take 9 (report_lines h) = map (identifier_line h) identifier_checklist"
  by (simp add: report_lines_def identifier_checklist_def)

lemma drop_report_lines: "drop 9 (report_lines h) = map (size_line h) structure_checklist"
  by (simp add: report_lines_def identifier_checklist_def)

lemma report_lines_cases:
  assumes "l \<in> set (report_lines h)"
  obtains s where "l = identifier_line h s" | s where "l = size_line h s"
  using assms by (auto simp: report_lines_def)

lemma identifier_line_split:
  "\<exists>k. identifier_line h s = name_field (identifier_line h s) @ replicate k CHR '' ''
          @ value_field (identifier_line h s)
       \<and> 20 \<le> length (name_field (identifier_line h s)) + k"
proof -
  have "identifier_line h s = stringify_ioctl s
          @ replicate (Suc (20 - length (stringify_ioctl s))) CHR '' ''
          @ render_hex (unat (ioctl_value h s))"
    by (simp add: identifier_line_def replicate_append_same)
  then show ?thesis
    unfolding name_field_identifier_line value_field_identifier_line
    by (intro exI [of _ "Suc (20 - length (stringify_ioctl s))"] conjI) simp_all
qed

lemma size_line_split:
  "\<exists>k. size_line h s = name_field (size_line h s) @ replicate k CHR '' ''
          @ value_field (size_line h s)
       \<and> 20 \<le> length (name_field (size_line h s)) + k"
proof -
  have "size_line h s = stringify_struct s
          @ replicate (Suc (20 - length (stringify_struct s))) CHR '' ''
          @ render_dec (unat (struct_sizeof h s))"
    by (simp add: size_line_def replicate_append_same)
  then show ?thesis
    unfolding name_field_size_line value_field_size_line
    by (intro exI [of _ "Suc (20 - length (stringify_struct s))"] conjI) simp_all
qed

lemma report_line_split:
  assumes "l \<in> set (report_lines h)"
  shows "\<exists>k. l = name_field l @ replicate k CHR '' '' @ value_field l \<and> 20 \<le> length (name_field l) + k"
  using assms identifier_line_split size_line_split by (elim report_lines_cases) blast+

lemma identifier_values:
  "map value_field (map (identifier_line h) identifier_checklist)
     = map (\<lambda>s. render_hex (unat (ioctl_value h s))) identifier_checklist"
  by (simp add: value_field_identifier_line)

lemma size_values:
  "map value_field (map (size_line h) structure_checklist)
     = map (\<lambda>s. render_dec (unat (struct_sizeof h s))) structure_checklist"
  by (simp add: value_field_size_line)

text \<open>
  Claim C2. On a standard output that accepts the writes, every line of the report starts
  with the item's name, the nineteen names being those spelled out below in this order,
  followed by spaces that fill the line to column 20 or beyond (the field of 20 columns
  and the space after it), followed by the value field. The value
  field of each of the nine identifier lines is the identifier rendered in hexadecimal: its
  characters are among \<^verbatim>\<open>0123456789abcdef\<close>, so lowercase and with no \<^verbatim>\<open>0x\<close>, and
  it reads back as that number in base 16. The value field of each of the ten size lines is
  the size of the structure rendered in decimal: its characters are digits and it reads
  back as that number in base 10.
\<close>

theorem every_line_is_name_padding_value:
  assumes "writable (stdout w)"
  shows "\<exists>w' out. process h w = Some (Inr 0, w') \<and> content (stdout w') = content (stdout w) @ out
           \<and> pending (stdout w') = []
           \<and> map name_field (lines_of out) =
               [''UFFDIO_REGISTER'', ''UFFDIO_UNREGISTER'', ''UFFDIO_WAKE'', ''UFFDIO_COPY'',
                ''UFFDIO_ZEROPAGE'', ''UFFDIO_MOVE'', ''UFFDIO_WRITEPROTECT'', ''UFFDIO_CONTINUE'',
                ''UFFDIO_POISON'',
                ''uffd_msg'', ''uffdio_api'', ''uffdio_range'', ''uffdio_register'', ''uffdio_copy'',
                ''uffdio_zeropage'', ''uffdio_writeprotect'', ''uffdio_continue'', ''uffdio_poison'',
                ''uffdio_move'']
           \<and> (\<forall>l\<in>set (lines_of out). \<exists>k.
                 l = name_field l @ replicate k CHR '' '' @ value_field l
                 \<and> 20 \<le> length (name_field l) + k)
           \<and> map name_field (lines_of out) =
               map stringify_ioctl identifier_checklist @ map stringify_struct structure_checklist
           \<and> map value_field (take 9 (lines_of out)) =
               map (\<lambda>s. render_hex (unat (ioctl_value h s))) identifier_checklist
           \<and> map value_field (drop 9 (lines_of out)) =
               map (\<lambda>s. render_dec (unat (struct_sizeof h s))) structure_checklist
           \<and> (\<forall>l\<in>set (take 9 (lines_of out)). set (value_field l) \<subseteq> set ''0123456789abcdef'')
           \<and> (\<forall>l\<in>set (drop 9 (lines_of out)). set (value_field l) \<subseteq> set ''0123456789'')
           \<and> map (parse_nat 16 \<circ> value_field) (take 9 (lines_of out)) =
               map (\<lambda>s. Some (unat (ioctl_value h s))) identifier_checklist
           \<and> map (parse_nat 10 \<circ> value_field) (drop 9 (lines_of out)) =
               map (\<lambda>s. Some (unat (struct_sizeof h s))) structure_checklist"
proof -
  from process_lines [OF assms, of h] obtain w' out where
    run: "process h w = Some (Inr 0, w')" "content (stdout w') = content (stdout w) @ out"
      "pending (stdout w') = []" and
    ls: "lines_of out = report_lines h"
    by blast
  show ?thesis
  proof (intro exI [of _ w'] exI [of _ out] conjI)
    show "process h w = Some (Inr 0, w')" by (rule run(1))
    show "content (stdout w') = content (stdout w) @ out" by (rule run(2))
    show "pending (stdout w') = []" by (rule run(3))
    show "map name_field (lines_of out) =
               [''UFFDIO_REGISTER'', ''UFFDIO_UNREGISTER'', ''UFFDIO_WAKE'', ''UFFDIO_COPY'',
                ''UFFDIO_ZEROPAGE'', ''UFFDIO_MOVE'', ''UFFDIO_WRITEPROTECT'', ''UFFDIO_CONTINUE'',
                ''UFFDIO_POISON'',
                ''uffd_msg'', ''uffdio_api'', ''uffdio_range'', ''uffdio_register'', ''uffdio_copy'',
                ''uffdio_zeropage'', ''uffdio_writeprotect'', ''uffdio_continue'', ''uffdio_poison'',
                ''uffdio_move'']"
      unfolding ls report_names by (simp add: identifier_checklist_def structure_checklist_def)
    show "\<forall>l\<in>set (lines_of out). \<exists>k.
            l = name_field l @ replicate k CHR '' '' @ value_field l
            \<and> 20 \<le> length (name_field l) + k"
      unfolding ls using report_line_split by blast
    show "map name_field (lines_of out) =
            map stringify_ioctl identifier_checklist @ map stringify_struct structure_checklist"
      unfolding ls by (rule report_names)
    show "map value_field (take 9 (lines_of out)) =
            map (\<lambda>s. render_hex (unat (ioctl_value h s))) identifier_checklist"
      unfolding ls take_report_lines by (rule identifier_values)
    show "map value_field (drop 9 (lines_of out)) =
            map (\<lambda>s. render_dec (unat (struct_sizeof h s))) structure_checklist"
      unfolding ls drop_report_lines by (rule size_values)
    show "\<forall>l\<in>set (take 9 (lines_of out)). set (value_field l) \<subseteq> set ''0123456789abcdef''"
      unfolding ls take_report_lines
    proof
      fix l assume "l \<in> set (map (identifier_line h) identifier_checklist)"
      then obtain s where "l = identifier_line h s" by auto
      then show "set (value_field l) \<subseteq> set ''0123456789abcdef''"
        by (simp only: value_field_identifier_line render_hex_digits)
    qed
    show "\<forall>l\<in>set (drop 9 (lines_of out)). set (value_field l) \<subseteq> set ''0123456789''"
      unfolding ls drop_report_lines
    proof
      fix l assume "l \<in> set (map (size_line h) structure_checklist)"
      then obtain s where "l = size_line h s" by auto
      then show "set (value_field l) \<subseteq> set ''0123456789''"
        by (simp only: value_field_size_line render_dec_digits)
    qed
    show "map (parse_nat 16 \<circ> value_field) (take 9 (lines_of out)) =
            map (\<lambda>s. Some (unat (ioctl_value h s))) identifier_checklist"
      unfolding ls take_report_lines
      by (simp add: value_field_identifier_line parse_render_hex)
    show "map (parse_nat 10 \<circ> value_field) (drop 9 (lines_of out)) =
            map (\<lambda>s. Some (unat (struct_sizeof h s))) structure_checklist"
      unfolding ls drop_report_lines
      by (simp add: value_field_size_line parse_render_dec)
  qed
qed


text \<open>The values read back from the report for the sample headers.\<close>

theorem every_line_is_name_padding_value_witness:
  "writable (stdout sample_world) \<and>
   (\<exists>w'. process sample_headers sample_world = Some (Inr 0, w') \<and>
      map name_field (lines_of (content (stdout w'))) =
        [''UFFDIO_REGISTER'', ''UFFDIO_UNREGISTER'', ''UFFDIO_WAKE'', ''UFFDIO_COPY'',
         ''UFFDIO_ZEROPAGE'', ''UFFDIO_MOVE'', ''UFFDIO_WRITEPROTECT'', ''UFFDIO_CONTINUE'',
         ''UFFDIO_POISON'',
         ''uffd_msg'', ''uffdio_api'', ''uffdio_range'', ''uffdio_register'', ''uffdio_copy'',
         ''uffdio_zeropage'', ''uffdio_writeprotect'', ''uffdio_continue'', ''uffdio_poison'',
         ''uffdio_move''] \<and>
      map value_field (take 9 (lines_of (content (stdout w')))) =
        [''c020aa00'', ''8010aa01'', ''8010aa02'', ''c028aa03'', ''c020aa04'', ''c028aa05'',
         ''c018aa06'', ''c020aa07'', ''c020aa08''] \<and>
      map value_field (drop 9 (lines_of (content (stdout w')))) =
        [''32'', ''24'', ''16'', ''32'', ''40'', ''32'', ''24'', ''32'', ''32'', ''40''] \<and>
      map (parse_nat 16 \<circ> value_field) (take 9 (lines_of (content (stdout w')))) =
        [Some 0xc020aa00, Some 0x8010aa01, Some 0x8010aa02, Some 0xc028aa03, Some 0xc020aa04,
         Some 0xc028aa05, Some 0xc018aa06, Some 0xc020aa07, Some 0xc020aa08] \<and>
      map (parse_nat 10 \<circ> value_field) (drop 9 (lines_of (content (stdout w')))) =
        [Some 32, Some 24, Some 16, Some 32, Some 40, Some 32, Some 24, Some 32, Some 32, Some 40])"
proof -
  have h: "writable (stdout sample_world)"
    by (simp add: sample_world_def fresh_stdout_def writable_def)
  have e: "content (stdout sample_world) = []"
    by (simp add: sample_world_def fresh_stdout_def content_def)
  from every_line_is_name_padding_value [OF h, of sample_headers] obtain w' out where
    run: "process sample_headers sample_world = Some (Inr 0, w')" and
    c: "content (stdout w') = content (stdout sample_world) @ out" and
    names: "map name_field (lines_of out) =
               [''UFFDIO_REGISTER'', ''UFFDIO_UNREGISTER'', ''UFFDIO_WAKE'', ''UFFDIO_COPY'',
                ''UFFDIO_ZEROPAGE'', ''UFFDIO_MOVE'', ''UFFDIO_WRITEPROTECT'', ''UFFDIO_CONTINUE'',
                ''UFFDIO_POISON'',
                ''uffd_msg'', ''uffdio_api'', ''uffdio_range'', ''uffdio_register'', ''uffdio_copy'',
                ''uffdio_zeropage'', ''uffdio_writeprotect'', ''uffdio_continue'', ''uffdio_poison'',
                ''uffdio_move'']" and
    hexv: "map value_field (take 9 (lines_of out)) =
            map (\<lambda>s. render_hex (unat (ioctl_value sample_headers s))) identifier_checklist" and
    decv: "map value_field (drop 9 (lines_of out)) =
            map (\<lambda>s. render_dec (unat (struct_sizeof sample_headers s))) structure_checklist" and
    hex: "map (parse_nat 16 \<circ> value_field) (take 9 (lines_of out)) =
            map (\<lambda>s. Some (unat (ioctl_value sample_headers s))) identifier_checklist" and
    dec: "map (parse_nat 10 \<circ> value_field) (drop 9 (lines_of out)) =
            map (\<lambda>s. Some (unat (struct_sizeof sample_headers s))) structure_checklist"
    by (elim exE conjE) (rule that)
  have out: "content (stdout w') = out" using c e by simp
  have "map (\<lambda>s. Some (unat (ioctl_value sample_headers s))) identifier_checklist =
        [Some 0xc020aa00, Some 0x8010aa01, Some 0x8010aa02, Some 0xc028aa03, Some 0xc020aa04,
         Some 0xc028aa05, Some 0xc018aa06, Some 0xc020aa07, Some 0xc020aa08]"
    by (simp add: identifier_checklist_def sample_headers_def sample_ioctl_def)
  moreover have "map (\<lambda>s. Some (unat (struct_sizeof sample_headers s))) structure_checklist =
        [Some 32, Some 24, Some 16, Some 32, Some 40, Some 32, Some 24, Some 32, Some 32, Some 40]"
    by (simp add: structure_checklist_def sample_headers_def sample_sizeof_def)
  moreover have "map (\<lambda>s. render_hex (unat (ioctl_value sample_headers s))) identifier_checklist =
        [''c020aa00'', ''8010aa01'', ''8010aa02'', ''c028aa03'', ''c020aa04'', ''c028aa05'',
         ''c018aa06'', ''c020aa07'', ''c020aa08'']"
    by (simp add: identifier_checklist_def sample_headers_def sample_ioctl_def
        render_hex_def render_nat.simps digit_char_def digit_chars_def)
  moreover have "map (\<lambda>s. render_dec (unat (struct_sizeof sample_headers s))) structure_checklist =
        [''32'', ''24'', ''16'', ''32'', ''40'', ''32'', ''24'', ''32'', ''32'', ''40'']"
    by (simp add: structure_checklist_def sample_headers_def sample_sizeof_def
        render_dec_def render_nat.simps digit_char_def digit_chars_def)
  ultimately have "process sample_headers sample_world = Some (Inr 0, w') \<and>
      map name_field (lines_of (content (stdout w'))) =
        [''UFFDIO_REGISTER'', ''UFFDIO_UNREGISTER'', ''UFFDIO_WAKE'', ''UFFDIO_COPY'',
         ''UFFDIO_ZEROPAGE'', ''UFFDIO_MOVE'', ''UFFDIO_WRITEPROTECT'', ''UFFDIO_CONTINUE'',
         ''UFFDIO_POISON'',
         ''uffd_msg'', ''uffdio_api'', ''uffdio_range'', ''uffdio_register'', ''uffdio_copy'',
         ''uffdio_zeropage'', ''uffdio_writeprotect'', ''uffdio_continue'', ''uffdio_poison'',
         ''uffdio_move''] \<and>
      map value_field (take 9 (lines_of (content (stdout w')))) =
        [''c020aa00'', ''8010aa01'', ''8010aa02'', ''c028aa03'', ''c020aa04'', ''c028aa05'',
         ''c018aa06'', ''c020aa07'', ''c020aa08''] \<and>
      map value_field (drop 9 (lines_of (content (stdout w')))) =
        [''32'', ''24'', ''16'', ''32'', ''40'', ''32'', ''24'', ''32'', ''32'', ''40''] \<and>
      map (parse_nat 16 \<circ> value_field) (take 9 (lines_of (content (stdout w')))) =
        [Some 0xc020aa00, Some 0x8010aa01, Some 0x8010aa02, Some 0xc028aa03, Some 0xc020aa04,
         Some 0xc028aa05, Some 0xc018aa06, Some 0xc020aa07, Some 0xc020aa08] \<and>
      map (parse_nat 10 \<circ> value_field) (drop 9 (lines_of (content (stdout w')))) =
        [Some 32, Some 24, Some 16, Some 32, Some 40, Some 32, Some 24, Some 32, Some 32, Some 40]"
    using run names hexv decv hex dec by (simp add: out)
  then show ?thesis by (intro conjI [OF h] exI [of _ w'])
qed

subsection \<open>Column alignment\<close>

text \<open>Columns of a line whose name has at most nineteen characters.\<close>

lemma line_columns:
  assumes "length n \<le> 19"
  shows "take 20 (n @ replicate (20 - length n) c @ c # v) = n @ replicate (20 - length n) c"
    and "(n @ replicate (20 - length n) c @ c # v) ! 20 = c"
    and "drop 21 (n @ replicate (20 - length n) c @ c # v) = v"
proof -
  define p where "p = n @ replicate (20 - length n) c"
  have len: "length p = 20" using assms by (simp add: p_def)
  have eq: "n @ replicate (20 - length n) c @ c # v = p @ c # v" by (simp add: p_def)
  show "take 20 (n @ replicate (20 - length n) c @ c # v) = n @ replicate (20 - length n) c"
    unfolding eq using len by (simp add: p_def)
  show "(n @ replicate (20 - length n) c @ c # v) ! 20 = c"
    unfolding eq using len by (simp add: nth_append)
  show "drop 21 (n @ replicate (20 - length n) c @ c # v) = v"
    unfolding eq using len by simp
qed

lemma identifier_line_columns:
  "length (name_field (identifier_line h s)) \<le> 19
   \<and> take 20 (identifier_line h s) = name_field (identifier_line h s)
        @ replicate (20 - length (name_field (identifier_line h s))) CHR '' ''
   \<and> identifier_line h s ! 20 = CHR '' ''
   \<and> drop 21 (identifier_line h s) = value_field (identifier_line h s)
   \<and> value_field (identifier_line h s) \<noteq> []
   \<and> CHR '' '' \<notin> set (value_field (identifier_line h s))"
  unfolding name_field_identifier_line value_field_identifier_line
  using line_columns [OF stringify_ioctl_length, of s "CHR '' ''"]
  by (simp add: identifier_line_def stringify_ioctl_length render_hex_nonempty space_notin_hex)

lemma size_line_columns:
  "length (name_field (size_line h s)) \<le> 19
   \<and> take 20 (size_line h s) = name_field (size_line h s)
        @ replicate (20 - length (name_field (size_line h s))) CHR '' ''
   \<and> size_line h s ! 20 = CHR '' ''
   \<and> drop 21 (size_line h s) = value_field (size_line h s)
   \<and> value_field (size_line h s) \<noteq> []
   \<and> CHR '' '' \<notin> set (value_field (size_line h s))"
  unfolding name_field_size_line value_field_size_line
  using line_columns [OF stringify_struct_length, of s "CHR '' ''"]
  by (simp add: size_line_def stringify_struct_length render_dec_nonempty space_notin_dec)

text \<open>
  Claim C8. On a standard output that accepts the writes, every one of the nineteen lines
  has a name of at most 19 characters, padded with spaces to exactly 20 columns; column 21
  (index 20) holds the single separating space; and the value field, which is not empty
  and contains no space, is the rest of the line from column 22 (index 21) on. So the
  value begins in the same column on all lines.
\<close>

theorem values_start_in_column_22:
  assumes "writable (stdout w)"
  shows "\<exists>w' out. process h w = Some (Inr 0, w') \<and> content (stdout w') = content (stdout w) @ out
           \<and> pending (stdout w') = []
           \<and> length (lines_of out) = 19
           \<and> (\<forall>l\<in>set (lines_of out).
                 length (name_field l) \<le> 19
                 \<and> take 20 l = name_field l @ replicate (20 - length (name_field l)) CHR '' ''
                 \<and> l ! 20 = CHR '' ''
                 \<and> drop 21 l = value_field l
                 \<and> value_field l \<noteq> []
                 \<and> CHR '' '' \<notin> set (value_field l))"
proof -
  from process_lines [OF assms, of h] obtain w' out where
    run: "process h w = Some (Inr 0, w')" "content (stdout w') = content (stdout w) @ out"
      "pending (stdout w') = []" and
    ls: "lines_of out = report_lines h"
    by blast
  have "\<forall>l\<in>set (report_lines h).
          length (name_field l) \<le> 19
          \<and> take 20 l = name_field l @ replicate (20 - length (name_field l)) CHR '' ''
          \<and> l ! 20 = CHR '' ''
          \<and> drop 21 l = value_field l
          \<and> value_field l \<noteq> []
          \<and> CHR '' '' \<notin> set (value_field l)"
  proof
    fix l assume "l \<in> set (report_lines h)"
    then show "length (name_field l) \<le> 19
          \<and> take 20 l = name_field l @ replicate (20 - length (name_field l)) CHR '' ''
          \<and> l ! 20 = CHR '' ''
          \<and> drop 21 l = value_field l
          \<and> value_field l \<noteq> []
          \<and> CHR '' '' \<notin> set (value_field l)"
    proof (cases rule: report_lines_cases)
      case (1 s)
      show ?thesis unfolding 1 by (rule identifier_line_columns)
    next
      case (2 s)
      show ?thesis unfolding 2 by (rule size_line_columns)
    qed
  qed
  then show ?thesis
    using run length_report_lines [of h] unfolding ls [symmetric]
    by (intro exI [of _ w'] exI [of _ out] conjI)
qed

text \<open>The sample report is aligned.\<close>

theorem values_start_in_column_22_witness:
  "writable (stdout sample_world) \<and>
   (\<exists>w'. process sample_headers sample_world = Some (Inr 0, w') \<and>
      length (lines_of (content (stdout w'))) = 19 \<and>
      (\<forall>l\<in>set (lines_of (content (stdout w'))).
         length (name_field l) \<le> 19 \<and> l ! 20 = CHR '' '' \<and> drop 21 l = value_field l
         \<and> value_field l \<noteq> [] \<and> CHR '' '' \<notin> set (value_field l)))"
proof -
  have h: "writable (stdout sample_world)"
    by (simp add: sample_world_def fresh_stdout_def writable_def)
  have e: "content (stdout sample_world) = []"
    by (simp add: sample_world_def fresh_stdout_def content_def)
  from values_start_in_column_22 [OF h, of sample_headers] obtain w' out where
    run: "process sample_headers sample_world = Some (Inr 0, w')" and
    c: "content (stdout w') = content (stdout sample_world) @ out" and
    n: "length (lines_of out) = 19" and
    cols: "\<forall>l\<in>set (lines_of out).
                 length (name_field l) \<le> 19
                 \<and> take 20 l = name_field l @ replicate (20 - length (name_field l)) CHR '' ''
                 \<and> l ! 20 = CHR '' ''
                 \<and> drop 21 l = value_field l
                 \<and> value_field l \<noteq> []
                 \<and> CHR '' '' \<notin> set (value_field l)"
    by blast
  have out: "content (stdout w') = out" using c e by simp
  have "process sample_headers sample_world = Some (Inr 0, w') \<and>
      length (lines_of (content (stdout w'))) = 19 \<and>
      (\<forall>l\<in>set (lines_of (content (stdout w'))).
         length (name_field l) \<le> 19 \<and> l ! 20 = CHR '' '' \<and> drop 21 l = value_field l
         \<and> value_field l \<noteq> [] \<and> CHR '' '' \<notin> set (value_field l))"
    using run n cols by (simp add: out)
  then show ?thesis by (intro conjI [OF h] exI [of _ w'])
qed

subsection \<open>Every name once\<close>

lemma distinct_checklist_names:
  "distinct (map stringify_ioctl identifier_checklist @ map stringify_struct structure_checklist)"
  by (simp add: identifier_checklist_def structure_checklist_def)

lemma once_if_distinct:
  "distinct (map f xs) \<Longrightarrow> n \<in> set (map f xs) \<Longrightarrow> length (filter (\<lambda>x. f x = n) xs) = 1"
  by (induction xs) (auto simp: filter_empty_conv image_iff)

text \<open>
  Claim C6. On a standard output that accepts the writes, the name fields of the nineteen
  lines are pairwise different, each of the nineteen names of the checklist is the name
  field of exactly one line, and no line carries another name.
\<close>

theorem every_name_appears_exactly_once:
  assumes "writable (stdout w)"
  shows "\<exists>w' out. process h w = Some (Inr 0, w') \<and> content (stdout w') = content (stdout w) @ out
           \<and> pending (stdout w') = []
           \<and> length (lines_of out) = 19
           \<and> distinct (map name_field (lines_of out))
           \<and> (\<forall>n\<in>set (map stringify_ioctl identifier_checklist
                         @ map stringify_struct structure_checklist).
                 length (filter (\<lambda>l. name_field l = n) (lines_of out)) = 1)
           \<and> (\<forall>l\<in>set (lines_of out).
                 name_field l \<in> set (map stringify_ioctl identifier_checklist
                                       @ map stringify_struct structure_checklist))"
proof -
  from process_lines [OF assms, of h] obtain w' out where
    run: "process h w = Some (Inr 0, w')" "content (stdout w') = content (stdout w) @ out"
      "pending (stdout w') = []" and
    ls: "lines_of out = report_lines h"
    by blast
  have names: "map name_field (lines_of out) =
      map stringify_ioctl identifier_checklist @ map stringify_struct structure_checklist"
    unfolding ls by (rule report_names)
  have d: "distinct (map name_field (lines_of out))"
    unfolding names by (rule distinct_checklist_names)
  have once: "\<forall>n\<in>set (map stringify_ioctl identifier_checklist
                         @ map stringify_struct structure_checklist).
                 length (filter (\<lambda>l. name_field l = n) (lines_of out)) = 1"
    using once_if_distinct [OF d] unfolding names [symmetric] by blast
  have known: "\<forall>l\<in>set (lines_of out).
                 name_field l \<in> set (map stringify_ioctl identifier_checklist
                                       @ map stringify_struct structure_checklist)"
    unfolding names [symmetric] by simp
  have n: "length (lines_of out) = 19"
    unfolding ls by (rule length_report_lines)
  show ?thesis using run n d once known
    by (intro exI [of _ w'] exI [of _ out] conjI)
qed

text \<open>In the sample report, one line is named \<^verbatim>\<open>UFFDIO_WAKE\<close> and one \<^verbatim>\<open>uffdio_move\<close>.\<close>

theorem every_name_appears_exactly_once_witness:
  "writable (stdout sample_world) \<and>
   (\<exists>w'. process sample_headers sample_world = Some (Inr 0, w') \<and>
      length (lines_of (content (stdout w'))) = 19 \<and>
      distinct (map name_field (lines_of (content (stdout w')))) \<and>
      length (filter (\<lambda>l. name_field l = ''UFFDIO_WAKE'') (lines_of (content (stdout w')))) = 1 \<and>
      length (filter (\<lambda>l. name_field l = ''uffdio_move'') (lines_of (content (stdout w')))) = 1)"
proof -
  have h: "writable (stdout sample_world)"
    by (simp add: sample_world_def fresh_stdout_def writable_def)
  have e: "content (stdout sample_world) = []"
    by (simp add: sample_world_def fresh_stdout_def content_def)
  from every_name_appears_exactly_once [OF h, of sample_headers] obtain w' out where
    run: "process sample_headers sample_world = Some (Inr 0, w')" and
    c: "content (stdout w') = content (stdout sample_world) @ out" and
    n: "length (lines_of out) = 19" and
    d: "distinct (map name_field (lines_of out))" and
    once: "\<forall>n\<in>set (map stringify_ioctl identifier_checklist
                         @ map stringify_struct structure_checklist).
                 length (filter (\<lambda>l. name_field l = n) (lines_of out)) = 1"
    by blast
  have out: "content (stdout w') = out" using c e by simp
  have "''UFFDIO_WAKE'' \<in> set (map stringify_ioctl identifier_checklist
                         @ map stringify_struct structure_checklist)"
    by (simp add: identifier_checklist_def)
  with once have wake: "length (filter (\<lambda>l. name_field l = ''UFFDIO_WAKE'') (lines_of out)) = 1"
    by blast
  have "''uffdio_move'' \<in> set (map stringify_ioctl identifier_checklist
                         @ map stringify_struct structure_checklist)"
    by (simp add: structure_checklist_def)
  with once have move: "length (filter (\<lambda>l. name_field l = ''uffdio_move'') (lines_of out)) = 1"
    by blast
  have "process sample_headers sample_world = Some (Inr 0, w') \<and>
      length (lines_of (content (stdout w'))) = 19 \<and>
      distinct (map name_field (lines_of (content (stdout w')))) \<and>
      length (filter (\<lambda>l. name_field l = ''UFFDIO_WAKE'') (lines_of (content (stdout w')))) = 1 \<and>
      length (filter (\<lambda>l. name_field l = ''uffdio_move'') (lines_of (content (stdout w')))) = 1"
    using run n d wake move by (simp add: out)
  then show ?thesis by (intro conjI [OF h] exI [of _ w'])
qed

subsection \<open>The spelling of the names\<close>

lemma no_struct_keyword: "take 6 (stringify_struct s) \<noteq> ''struct''"
  by (cases s) simp_all

text \<open>
  Claim C9. On a standard output that accepts the writes, the name field of each of the
  first nine lines is the stringified argument of \<^verbatim>\<open>PRINT_VAL\<close>, the constant's name
  in capitals and underscores (for instance \<^verbatim>\<open>UFFDIO_WAKE\<close>); the name field of each of
  the last ten lines is the stringified argument of \<^verbatim>\<open>PRINT_SIZE\<close>, the bare structure
  tag in lowercase letters and underscores (for instance \<^verbatim>\<open>uffd_msg\<close>,
  \<^verbatim>\<open>uffdio_api\<close>), not preceded by the keyword \<^verbatim>\<open>struct\<close>.
\<close>

theorem names_are_the_stringified_arguments:
  assumes "writable (stdout w)"
  shows "\<exists>w' out. process h w = Some (Inr 0, w') \<and> content (stdout w') = content (stdout w) @ out
           \<and> pending (stdout w') = []
           \<and> map name_field (take 9 (lines_of out)) = map stringify_ioctl identifier_checklist
           \<and> map name_field (drop 9 (lines_of out)) = map stringify_struct structure_checklist
           \<and> (\<forall>l\<in>set (take 9 (lines_of out)).
                 set (name_field l) \<subseteq> set ''ABCDEFGHIJKLMNOPQRSTUVWXYZ_'')
           \<and> (\<forall>l\<in>set (drop 9 (lines_of out)).
                 set (name_field l) \<subseteq> set ''abcdefghijklmnopqrstuvwxyz_''
                 \<and> take 6 (name_field l) \<noteq> ''struct'')
           \<and> stringify_struct uffd_msg = ''uffd_msg''
           \<and> stringify_struct uffdio_api = ''uffdio_api''
           \<and> stringify_ioctl UFFDIO_WAKE = ''UFFDIO_WAKE''"
proof -
  from process_lines [OF assms, of h] obtain w' out where
    run: "process h w = Some (Inr 0, w')" "content (stdout w') = content (stdout w) @ out"
      "pending (stdout w') = []" and
    ls: "lines_of out = report_lines h"
    by blast
  show ?thesis
  proof (intro exI [of _ w'] exI [of _ out] conjI)
    show "process h w = Some (Inr 0, w')" by (rule run(1))
    show "content (stdout w') = content (stdout w) @ out" by (rule run(2))
    show "pending (stdout w') = []" by (rule run(3))
    show "map name_field (take 9 (lines_of out)) = map stringify_ioctl identifier_checklist"
      unfolding ls take_report_lines by (simp add: name_field_identifier_line)
    show "map name_field (drop 9 (lines_of out)) = map stringify_struct structure_checklist"
      unfolding ls drop_report_lines by (simp add: name_field_size_line)
    show "\<forall>l\<in>set (take 9 (lines_of out)).
            set (name_field l) \<subseteq> set ''ABCDEFGHIJKLMNOPQRSTUVWXYZ_''"
      unfolding ls take_report_lines
    proof
      fix l assume "l \<in> set (map (identifier_line h) identifier_checklist)"
      then obtain s where "l = identifier_line h s" by auto
      then show "set (name_field l) \<subseteq> set ''ABCDEFGHIJKLMNOPQRSTUVWXYZ_''"
        by (simp only: name_field_identifier_line stringify_ioctl_chars)
    qed
    show "\<forall>l\<in>set (drop 9 (lines_of out)).
            set (name_field l) \<subseteq> set ''abcdefghijklmnopqrstuvwxyz_''
            \<and> take 6 (name_field l) \<noteq> ''struct''"
      unfolding ls drop_report_lines
    proof
      fix l assume "l \<in> set (map (size_line h) structure_checklist)"
      then obtain s where "l = size_line h s" by auto
      then show "set (name_field l) \<subseteq> set ''abcdefghijklmnopqrstuvwxyz_''
            \<and> take 6 (name_field l) \<noteq> ''struct''"
        using stringify_struct_chars [of s] no_struct_keyword [of s]
        by (simp only: name_field_size_line simp_thms)
    qed
  qed simp_all
qed

text \<open>The names of the sample report, identifiers first.\<close>

theorem names_are_the_stringified_arguments_witness:
  "writable (stdout sample_world) \<and>
   (\<exists>w'. process sample_headers sample_world = Some (Inr 0, w') \<and>
      map name_field (take 9 (lines_of (content (stdout w')))) =
        [''UFFDIO_REGISTER'', ''UFFDIO_UNREGISTER'', ''UFFDIO_WAKE'', ''UFFDIO_COPY'',
         ''UFFDIO_ZEROPAGE'', ''UFFDIO_MOVE'', ''UFFDIO_WRITEPROTECT'', ''UFFDIO_CONTINUE'',
         ''UFFDIO_POISON''] \<and>
      map name_field (drop 9 (lines_of (content (stdout w')))) =
        [''uffd_msg'', ''uffdio_api'', ''uffdio_range'', ''uffdio_register'', ''uffdio_copy'',
         ''uffdio_zeropage'', ''uffdio_writeprotect'', ''uffdio_continue'', ''uffdio_poison'',
         ''uffdio_move''])"
proof -
  have h: "writable (stdout sample_world)"
    by (simp add: sample_world_def fresh_stdout_def writable_def)
  have e: "content (stdout sample_world) = []"
    by (simp add: sample_world_def fresh_stdout_def content_def)
  from names_are_the_stringified_arguments [OF h, of sample_headers] obtain w' out where
    run: "process sample_headers sample_world = Some (Inr 0, w')" and
    c: "content (stdout w') = content (stdout sample_world) @ out" and
    up: "map name_field (take 9 (lines_of out)) = map stringify_ioctl identifier_checklist" and
    lo: "map name_field (drop 9 (lines_of out)) = map stringify_struct structure_checklist"
    by blast
  have out: "content (stdout w') = out" using c e by simp
  have "process sample_headers sample_world = Some (Inr 0, w') \<and>
      map name_field (take 9 (lines_of (content (stdout w')))) =
        [''UFFDIO_REGISTER'', ''UFFDIO_UNREGISTER'', ''UFFDIO_WAKE'', ''UFFDIO_COPY'',
         ''UFFDIO_ZEROPAGE'', ''UFFDIO_MOVE'', ''UFFDIO_WRITEPROTECT'', ''UFFDIO_CONTINUE'',
         ''UFFDIO_POISON''] \<and>
      map name_field (drop 9 (lines_of (content (stdout w')))) =
        [''uffd_msg'', ''uffdio_api'', ''uffdio_range'', ''uffdio_register'', ''uffdio_copy'',
         ''uffdio_zeropage'', ''uffdio_writeprotect'', ''uffdio_continue'', ''uffdio_poison'',
         ''uffdio_move'']"
    using run up lo by (simp add: out identifier_checklist_def structure_checklist_def)
  then show ?thesis by (intro conjI [OF h] exI [of _ w'])
qed

subsection \<open>Exit status\<close>

lemma process_status:
  assumes "process h w = Some (r, w')"
  shows "r = Inr 0 \<or> r = Inl Signalled \<or> r = Inl Blocked"
proof -
  from assms have "r = Inr 0 \<or> (\<exists>e. r = Inl e)"
    by (auto simp: process_run split: prod.splits sum.splits)
  then show ?thesis
  proof
    assume "r = Inr 0"
    then show ?thesis by simp
  next
    assume "\<exists>e. r = Inl e"
    then obtain e where "r = Inl e" by blast
    then show ?thesis by (cases e) simp_all
  qed
qed

lemma process_total: "\<exists>r w'. process h w = Some (r, w')"
  by (auto simp: process_run split: prod.splits sum.splits)

lemma process_nonfatal:
  assumes "nonfatal (stdout w)"
  shows "\<exists>w'. process h w = Some (Inr 0, w')
           \<and> calls (stdout w') = calls (stdout w) @ map (\<lambda>l. l @ ''\<newline>'') (report_lines h)"
proof -
  from write_all_nonfatal [OF assms, of "map (\<lambda>l. l @ ''\<newline>'') (report_lines h)"]
  obtain st where
    st: "write_all (map (\<lambda>l. l @ ''\<newline>'') (report_lines h)) (stdout w) = (Inr (), st)"
      "calls st = calls (stdout w) @ map (\<lambda>l. l @ ''\<newline>'') (report_lines h)"
      "nonfatal st"
    by blast
  from drain_returns [of "faults st" st] st(3) obtain st' where
    st': "stream_flush st = (Inr (), st')" "calls st' = calls st"
    by (auto simp: nonfatal_def stream_flush_def)
  have "process h w = Some (Inr 0, w\<lparr>stdout := st'\<rparr>)"
    by (simp add: process_run st(1) st'(1))
  moreover have "calls (stdout (w\<lparr>stdout := st'\<rparr>)) =
      calls (stdout w) @ map (\<lambda>l. l @ ''\<newline>'') (report_lines h)"
    using st(2) st'(2) by simp
  ultimately show ?thesis by blast
qed

text \<open>A stream on which every write reports an error takes the calls and delivers nothing.\<close>

lemma write_all_erroring:
  "length ss \<le> n \<Longrightarrow> faults st = replicate n (Fail 0 False) \<Longrightarrow> pending st = [] \<Longrightarrow>
     \<exists>st'. write_all ss st = (Inr (), st') \<and> device st' = device st \<and> pending st' = []"
proof (induction ss arbitrary: st n)
  case Nil
  then show ?case by simp
next
  case (Cons s ss)
  from Cons.prems(1) obtain m where n: "n = Suc m" by (cases n) auto
  obtain r st1 where step: "stream_write s st = (r, st1)" by (cases "stream_write s st")
  then have r: "r = Inr (- 1)" and d: "device st1 = device st" and p: "pending st1 = []"
    and f: "faults st1 = replicate m (Fail 0 False)"
    using Cons.prems(2,3) by (auto simp: stream_write_def transmit_def Let_def n)
  from Cons.IH [of m st1] Cons.prems(1) f p obtain st' where
    "write_all ss st1 = (Inr (), st')" "device st' = device st1" "pending st' = []"
    by (auto simp: n)
  then show ?case using step r d by simp
qed

lemma erroring_run:
  "\<exists>w'. process h erroring_world = Some (Inr 0, w') \<and> device (stdout w') = []"
proof -
  have "\<exists>st'. write_all (map (\<lambda>l. l @ ''\<newline>'') (report_lines h)) (stdout erroring_world)
            = (Inr (), st') \<and> device st' = device (stdout erroring_world) \<and> pending st' = []"
    by (rule write_all_erroring [of _ 20])
      (simp_all add: length_report_lines erroring_world_def fresh_stdout_def)
  then obtain st' where
    st': "write_all (map (\<lambda>l. l @ ''\<newline>'') (report_lines h)) (stdout erroring_world) = (Inr (), st')"
      "device st' = device (stdout erroring_world)" "pending st' = []"
    by blast
  have "fst (stream_flush st') = Inr () \<and> device (snd (stream_flush st')) = device st'"
    using st'(3) by (cases "faults st'") (simp_all add: stream_flush_def transmit_def)
  then obtain r1 st1 where f: "stream_flush st' = (r1, st1)"
    and r1: "r1 = Inr ()" and d1: "device st1 = device st'"
    by (cases "stream_flush st'") simp
  have "process h erroring_world = Some (Inr 0, erroring_world\<lparr>stdout := st1\<rparr>)"
    using f r1 by (simp add: process_run st'(1))
  moreover have "device (stdout (erroring_world\<lparr>stdout := st1\<rparr>)) = []"
    using d1 st'(2) by (simp add: erroring_world_def fresh_stdout_def)
  ultimately show ?thesis by blast
qed

text \<open>A stream that only buffers keeps all the text of the calls.\<close>

lemma write_all_buffered:
  "faults st = replicate (length ss) (Send 0) @ rest \<Longrightarrow>
     \<exists>st'. write_all ss st = (Inr (), st') \<and> device st' = device st
       \<and> pending st' = pending st @ concat ss \<and> calls st' = calls st @ ss \<and> faults st' = rest"
proof (induction ss arbitrary: st)
  case Nil
  then show ?case by simp
next
  case (Cons s ss)
  obtain r st1 where step: "stream_write s st = (r, st1)" by (cases "stream_write s st")
  then have r: "r = Inr (int (length s))" and d: "device st1 = device st"
    and p: "pending st1 = pending st @ s" and c: "calls st1 = calls st @ [s]"
    and f: "faults st1 = replicate (length ss) (Send 0) @ rest"
    using Cons.prems by (auto simp: stream_write_def transmit_def Let_def)
  from Cons.IH [OF f] obtain st' where
    "write_all ss st1 = (Inr (), st')" "device st' = device st1"
    "pending st' = pending st1 @ concat ss" "calls st' = calls st1 @ ss" "faults st' = rest"
    by blast
  then show ?case using step r d p c by simp
qed

lemma report_text_nonempty: "concat (map (\<lambda>l. l @ ''\<newline>'') (report_lines h)) \<noteq> []"
  by (simp add: report_lines_def identifier_checklist_def)

text \<open>The run on the pipe without reader behind a fully buffered stream.\<close>

lemma closed_pipe_run:
  "\<exists>v w'. main sample_headers closed_pipe_world = Some (Inr 0, v)
     \<and> process sample_headers closed_pipe_world = Some (Inl Signalled, w')
     \<and> length (calls (stdout w')) = 19 \<and> device (stdout w') = []"
proof -
  define ls where "ls = map (\<lambda>l. l @ ''\<newline>'') (report_lines sample_headers)"
  have len: "length ls = 19" by (simp add: ls_def length_report_lines)
  have "faults (stdout closed_pipe_world) = replicate (length ls) (Send 0) @ [Kill 0]"
    by (simp add: closed_pipe_world_def fresh_stdout_def len)
  from write_all_buffered [OF this] obtain st where
    st: "write_all ls (stdout closed_pipe_world) = (Inr (), st)"
      "device st = device (stdout closed_pipe_world)"
      "pending st = pending (stdout closed_pipe_world) @ concat ls"
      "calls st = calls (stdout closed_pipe_world) @ ls" "faults st = [Kill 0]"
    by blast
  have ne: "pending st \<noteq> []"
    using st(3) report_text_nonempty [of sample_headers] by (simp add: ls_def)
  define st1 where "st1 = (transmit 0 st)\<lparr>faults := []\<rparr>"
  have flush: "stream_flush st = (Inl Signalled, st1)"
    using ne by (simp add: stream_flush_def st(5) st1_def)
  have m: "main sample_headers closed_pipe_world = Some (Inr 0, closed_pipe_world\<lparr>stdout := st\<rparr>)"
    using st(1) by (simp add: main_run ls_def)
  have p: "process sample_headers closed_pipe_world
             = Some (Inl Signalled, closed_pipe_world\<lparr>stdout := st1\<rparr>)"
    using st(1) flush by (simp add: process_run ls_def)
  have c: "length (calls (stdout (closed_pipe_world\<lparr>stdout := st1\<rparr>))) = 19"
    using st(4) len by (simp add: st1_def transmit_def closed_pipe_world_def fresh_stdout_def)
  have d: "device (stdout (closed_pipe_world\<lparr>stdout := st1\<rparr>)) = []"
    using st(2) by (simp add: st1_def transmit_def closed_pipe_world_def fresh_stdout_def)
  from m p c d show ?thesis by blast
qed

text \<open>
  Claim C3, as stated, fails: on a pipe without reader behind a buffered stream the nineteen
  calls succeed and \<^verbatim>\<open>main\<close> returns 0, but the flush at exit raises the signal and
  the process ends without an exit status.
\<close>

theorem exit_status_counterexample:
  "map_option fst (main sample_headers closed_pipe_world) = Some (Inr 0)
   \<and> map_option fst (process sample_headers closed_pipe_world) = Some (Inl Signalled)
   \<and> map_option fst (process sample_headers closed_pipe_world) \<noteq> Some (Inr 0)"
proof -
  from closed_pipe_run obtain v w' where
    m: "main sample_headers closed_pipe_world = Some (Inr 0, v)" and
    p: "process sample_headers closed_pipe_world = Some (Inl Signalled, w')"
    by blast
  show ?thesis by (simp add: m p)
qed

text \<open>
  Claim C3, amended. Every run ends in one of three ways: with exit status 0, by a signal,
  or blocked in a write; no exit status other than 0 is ever produced, and the program has
  no error path of its own. On a standard output that accepts the writes the run ends with
  exit status 0 after all nineteen lines are written. A failure of the stream is neither
  detected nor handled: as long as no write kills or blocks the process the status is 0,
  whatever the writes report, and nothing is installed against a signal, so a broken pipe
  ends the process by the signal's default action.
\<close>

theorem exit_status_is_zero_unless_halted:
  "\<exists>r w'. process h w = Some (r, w')
     \<and> (r = Inr 0 \<or> r = Inl Signalled \<or> r = Inl Blocked)
     \<and> (nonfatal (stdout w) \<longrightarrow> r = Inr 0)
     \<and> (writable (stdout w) \<longrightarrow>
          r = Inr 0 \<and> pending (stdout w') = []
          \<and> (\<exists>out. content (stdout w') = content (stdout w) @ out \<and> length (lines_of out) = 19))"
proof -
  from process_total [of h w] obtain r w' where run: "process h w = Some (r, w')" by blast
  have status: "r = Inr 0 \<or> r = Inl Signalled \<or> r = Inl Blocked"
    using run by (rule process_status)
  have nf: "nonfatal (stdout w) \<longrightarrow> r = Inr 0"
  proof
    assume "nonfatal (stdout w)"
    from process_nonfatal [OF this, of h] run show "r = Inr 0" by auto
  qed
  have wr: "writable (stdout w) \<longrightarrow>
          r = Inr 0 \<and> pending (stdout w') = []
          \<and> (\<exists>out. content (stdout w') = content (stdout w) @ out \<and> length (lines_of out) = 19)"
  proof
    assume "writable (stdout w)"
    from process_lines [OF this, of h] obtain v' out where
      v: "process h w = Some (Inr 0, v')" "content (stdout v') = content (stdout w) @ out"
        "pending (stdout v') = []" "lines_of out = report_lines h"
      by blast
    from v(1) run have "r = Inr 0" "w' = v'" by simp_all
    moreover have "length (lines_of out) = 19" by (simp add: v(4) length_report_lines)
    ultimately show "r = Inr 0 \<and> pending (stdout w') = []
          \<and> (\<exists>out. content (stdout w') = content (stdout w) @ out \<and> length (lines_of out) = 19)"
      using v(2,3) by blast
  qed
  from run status nf wr show ?thesis by blast
qed

text \<open>
  A fresh process, which prints its nineteen lines, and a process on a file where every
  write reports an error, which delivers nothing: both exit with status 0.
\<close>

theorem exit_status_is_zero_unless_halted_witness:
  "writable (stdout sample_world) \<and> nonfatal (stdout sample_world)
   \<and> (\<exists>w'. process sample_headers sample_world = Some (Inr 0, w')
         \<and> pending (stdout w') = [] \<and> length (lines_of (content (stdout w'))) = 19)
   \<and> nonfatal (stdout erroring_world) \<and> \<not> writable (stdout erroring_world)
   \<and> (\<exists>v'. process sample_headers erroring_world = Some (Inr 0, v') \<and> device (stdout v') = [])"
proof -
  have h: "writable (stdout sample_world)"
    by (simp add: sample_world_def fresh_stdout_def writable_def)
  have n: "nonfatal (stdout sample_world)"
    by (simp add: sample_world_def fresh_stdout_def nonfatal_def)
  have e: "content (stdout sample_world) = []"
    by (simp add: sample_world_def fresh_stdout_def content_def)
  have ne: "nonfatal (stdout erroring_world)"
    by (simp add: erroring_world_def fresh_stdout_def nonfatal_def list_all_iff)
  have nw: "\<not> writable (stdout erroring_world)"
    by (simp add: erroring_world_def fresh_stdout_def writable_def list_all_iff)
  from exit_status_is_zero_unless_halted [of sample_headers sample_world] h e
  have first: "\<exists>w'. process sample_headers sample_world = Some (Inr 0, w')
         \<and> pending (stdout w') = [] \<and> length (lines_of (content (stdout w'))) = 19"
    by auto
  from exit_status_is_zero_unless_halted [of sample_headers erroring_world] ne
  obtain v' where v: "process sample_headers erroring_world = Some (Inr 0, v')"
    by auto
  from erroring_run [of sample_headers] v
  have second: "\<exists>v'. process sample_headers erroring_world = Some (Inr 0, v') \<and> device (stdout v') = []"
    by auto
  from h n first ne nw second show ?thesis by blast
qed

subsection \<open>Determinism\<close>

text \<open>
  Claim C4. For one build, that is one header environment, any two runs on standard outputs
  that accept the writes append the same characters, whatever the arguments, the
  environment and the pending input of the two processes are and however the two streams
  buffer: the output depends on the build alone.
\<close>

theorem output_is_a_function_of_the_build:
  assumes "writable (stdout w1)" and "writable (stdout w2)"
  shows "\<exists>w1' w2' out. process h w1 = Some (Inr 0, w1') \<and> process h w2 = Some (Inr 0, w2')
           \<and> content (stdout w1') = content (stdout w1) @ out
           \<and> content (stdout w2') = content (stdout w2) @ out
           \<and> pending (stdout w1') = [] \<and> pending (stdout w2') = []"
proof -
  from process_content [OF assms(1), of h] obtain w1' where
    r1: "process h w1 = Some (Inr 0, w1')"
      "content (stdout w1') = content (stdout w1) @ concat (map (\<lambda>l. l @ ''\<newline>'') (report_lines h))"
      "pending (stdout w1') = []"
    by blast
  from process_content [OF assms(2), of h] obtain w2' where
    r2: "process h w2 = Some (Inr 0, w2')"
      "content (stdout w2') = content (stdout w2) @ concat (map (\<lambda>l. l @ ''\<newline>'') (report_lines h))"
      "pending (stdout w2') = []"
    by blast
  show ?thesis using r1 r2
    by (intro exI [of _ w1'] exI [of _ w2']
        exI [of _ "concat (map (\<lambda>l. l @ ''\<newline>'') (report_lines h))"] conjI)
qed

text \<open>
  Two processes that differ in arguments, environment, input and in the buffering of
  their streams print the same text.
\<close>

theorem output_is_a_function_of_the_build_witness:
  "writable (stdout sample_world) \<and> writable (stdout other_world)
   \<and> argv sample_world \<noteq> argv other_world
   \<and> environ sample_world \<noteq> environ other_world
   \<and> stdin sample_world \<noteq> stdin other_world
   \<and> faults (stdout sample_world) \<noteq> faults (stdout other_world)
   \<and> (\<exists>w1' w2'. process sample_headers sample_world = Some (Inr 0, w1')
         \<and> process sample_headers other_world = Some (Inr 0, w2')
         \<and> content (stdout w1') = content (stdout w2')
         \<and> device (stdout w1') = device (stdout w2'))"
proof -
  have h1: "writable (stdout sample_world)"
    by (simp add: sample_world_def fresh_stdout_def writable_def)
  have h2: "writable (stdout other_world)"
    by (simp add: other_world_def fresh_stdout_def writable_def)
  have e1: "device (stdout sample_world) = []" "pending (stdout sample_world) = []"
    by (simp_all add: sample_world_def fresh_stdout_def)
  have e2: "device (stdout other_world) = []" "pending (stdout other_world) = []"
    by (simp_all add: other_world_def fresh_stdout_def)
  have d: "argv sample_world \<noteq> argv other_world" "environ sample_world \<noteq> environ other_world"
    "stdin sample_world \<noteq> stdin other_world"
    "faults (stdout sample_world) \<noteq> faults (stdout other_world)"
    by (simp_all add: sample_world_def other_world_def fresh_stdout_def)
  from output_is_a_function_of_the_build [OF h1 h2, of sample_headers] obtain w1' w2' out where
    "process sample_headers sample_world = Some (Inr 0, w1')"
    "process sample_headers other_world = Some (Inr 0, w2')"
    "content (stdout w1') = content (stdout sample_world) @ out"
    "content (stdout w2') = content (stdout other_world) @ out"
    "pending (stdout w1') = []" "pending (stdout w2') = []"
    by blast
  then have "process sample_headers sample_world = Some (Inr 0, w1')
         \<and> process sample_headers other_world = Some (Inr 0, w2')
         \<and> content (stdout w1') = content (stdout w2')
         \<and> device (stdout w1') = device (stdout w2')"
    by (simp add: e1 e2 content_def)
  then have "\<exists>w1' w2'. process sample_headers sample_world = Some (Inr 0, w1')
         \<and> process sample_headers other_world = Some (Inr 0, w2')
         \<and> content (stdout w1') = content (stdout w2')
         \<and> device (stdout w1') = device (stdout w2')"
    by blast
  with h1 h2 d show ?thesis by blast
qed

subsection \<open>Frame\<close>

lemma process_frame:
  "\<exists>r st. \<forall>v. stdout v = stdout w \<longrightarrow> process h v = Some (r, v\<lparr>stdout := st\<rparr>)"
proof -
  obtain r0 st0 where a: "write_all (map (\<lambda>l. l @ ''\<newline>'') (report_lines h)) (stdout w) = (r0, st0)"
    by (cases "write_all (map (\<lambda>l. l @ ''\<newline>'') (report_lines h)) (stdout w)")
  obtain r1 st1 where f: "stream_flush st0 = (r1, st1)" by (cases "stream_flush st0")
  show ?thesis
  proof (cases r0)
    case (Inl e)
    then have "\<forall>v. stdout v = stdout w \<longrightarrow> process h v = Some (Inl e, v\<lparr>stdout := st0\<rparr>)"
      using a by (simp add: process_run)
    then show ?thesis by blast
  next
    case (Inr u)
    show ?thesis
    proof (cases r1)
      case (Inl e)
      then have "\<forall>v. stdout v = stdout w \<longrightarrow> process h v = Some (Inl e, v\<lparr>stdout := st1\<rparr>)"
        using a f Inr by (simp add: process_run)
      then show ?thesis by blast
    next
      case (Inr u')
      then have "\<forall>v. stdout v = stdout w \<longrightarrow> process h v = Some (Inr 0, v\<lparr>stdout := st1\<rparr>)"
        using a f \<open>r0 = Inr u\<close> by (simp add: process_run)
      then show ?thesis by blast
    qed
  qed
qed

text \<open>
  Claim C5. A run changes nothing of the process state but standard output: arguments,
  environment and standard input are as they were, so nothing of the input is consumed.
  Nor does it read them: with other arguments \<open>a\<close>, another environment \<open>e\<close> and other
  pending input \<open>i\<close>, the way the run ends and the resulting standard output are the
  same. On a standard output that accepts the writes the run ends with exit status 0.
\<close>

theorem only_standard_output_is_touched:
  "\<exists>r st. process h w = Some (r, w\<lparr>stdout := st\<rparr>)
     \<and> process h (w\<lparr>argv := a, environ := e, stdin := i\<rparr>)
         = Some (r, w\<lparr>argv := a, environ := e, stdin := i, stdout := st\<rparr>)
     \<and> (writable (stdout w) \<longrightarrow> r = Inr 0)"
proof -
  from process_frame [of w h] obtain r st where
    fr: "\<forall>v. stdout v = stdout w \<longrightarrow> process h v = Some (r, v\<lparr>stdout := st\<rparr>)"
    by blast
  from fr have one: "process h w = Some (r, w\<lparr>stdout := st\<rparr>)" by simp
  from fr have two: "process h (w\<lparr>argv := a, environ := e, stdin := i\<rparr>)
         = Some (r, w\<lparr>argv := a, environ := e, stdin := i, stdout := st\<rparr>)"
    by simp
  have three: "writable (stdout w) \<longrightarrow> r = Inr 0"
  proof
    assume "writable (stdout w)"
    from process_content [OF this, of h] one show "r = Inr 0" by auto
  qed
  from one two three show ?thesis by blast
qed

text \<open>The sample run, and the same run with other arguments, environment and input.\<close>

theorem only_standard_output_is_touched_witness:
  "writable (stdout sample_world)
   \<and> (\<exists>st. process sample_headers sample_world = Some (Inr 0, sample_world\<lparr>stdout := st\<rparr>)
         \<and> process sample_headers
             (sample_world\<lparr>argv := [''./sizeof'', ''-v''], environ := [''HOME=/''], stdin := ''abc''\<rparr>)
           = Some (Inr 0, sample_world\<lparr>argv := [''./sizeof'', ''-v''], environ := [''HOME=/''],
                                        stdin := ''abc'', stdout := st\<rparr>))"
proof -
  have h: "writable (stdout sample_world)"
    by (simp add: sample_world_def fresh_stdout_def writable_def)
  from only_standard_output_is_touched
    [where h = sample_headers and w = sample_world and a = "[''./sizeof'', ''-v'']"
       and e = "[''HOME=/'']" and i = "''abc''"] h
  show ?thesis by auto
qed

subsection \<open>One linear pass\<close>

text \<open>
  Claim C7, as stated, fails on a pipe without reader. Behind an unbuffered stream the first
  write raises the signal, and the process ends after one call instead of nineteen. Behind
  a buffered stream the nineteen calls are made, but the flush at exit raises the signal:
  no success status follows the writes.
\<close>

theorem single_pass_counterexample:
  "map_option fst (process sample_headers unbuffered_pipe_world) = Some (Inl Signalled)
   \<and> map_option (length \<circ> calls \<circ> stdout \<circ> snd) (process sample_headers unbuffered_pipe_world)
       = Some 1
   \<and> map_option fst (process sample_headers closed_pipe_world) = Some (Inl Signalled)
   \<and> map_option (length \<circ> calls \<circ> stdout \<circ> snd) (process sample_headers closed_pipe_world)
       = Some 19"
proof -
  have "map_option fst (process sample_headers unbuffered_pipe_world) = Some (Inl Signalled)
   \<and> map_option (length \<circ> calls \<circ> stdout \<circ> snd) (process sample_headers unbuffered_pipe_world)
       = Some 1"
    by (simp add: process_run report_lines_def identifier_checklist_def unbuffered_pipe_world_def
        fresh_stdout_def sample_world_def stream_write_def transmit_def Let_def)
  moreover from closed_pipe_run obtain w' where
    "process sample_headers closed_pipe_world = Some (Inl Signalled, w')"
    "length (calls (stdout w')) = 19"
    by blast
  then have "map_option fst (process sample_headers closed_pipe_world) = Some (Inl Signalled)
   \<and> map_option (length \<circ> calls \<circ> stdout \<circ> snd) (process sample_headers closed_pipe_world)
       = Some 19"
    by simp
  ultimately show ?thesis by (intro conjI) simp_all
qed

text \<open>
  Claim C7, amended. Execution is a single linear pass: the calls made on standard output
  are the writes of the first \<open>n\<close> lines of the checklist, in order, none repeated and none
  skipped whatever the earlier calls reported. A run that ends with an exit status has
  made exactly the nineteen writes, and its status is 0. A run makes fewer only when a
  write ends the process, by a signal or by blocking for ever; on every stream without
  such a write the run terminates with status 0 after the nineteen writes.
\<close>

theorem single_pass_of_at_most_nineteen_writes:
  "\<exists>r w' n. process h w = Some (r, w') \<and> n \<le> 19
     \<and> calls (stdout w') = calls (stdout w) @ take n (map (\<lambda>l. l @ ''\<newline>'') (report_lines h))
     \<and> (r = Inr 0 \<or> r = Inl Signalled \<or> r = Inl Blocked)
     \<and> (r = Inr 0 \<longrightarrow> n = 19)
     \<and> (nonfatal (stdout w) \<longrightarrow> r = Inr 0)"
proof -
  define ls where "ls = map (\<lambda>l. l @ ''\<newline>'') (report_lines h)"
  have len: "length ls = 19" by (simp add: ls_def length_report_lines)
  obtain r0 st0 where a: "write_all ls (stdout w) = (r0, st0)" by (cases "write_all ls (stdout w)")
  from write_all_calls [of ls "stdout w"] a obtain n where
    n: "n \<le> 19" "calls st0 = calls (stdout w) @ take n ls" "r0 = Inr () \<longrightarrow> n = 19"
    by (auto simp: len)
  obtain r1 st1 where f: "stream_flush st0 = (r1, st1)" by (cases "stream_flush st0")
  have c1: "calls st1 = calls st0"
    using calls_drain [of "faults st0" st0] f by (simp add: stream_flush_def)
  from process_total [of h w] obtain r w' where run: "process h w = Some (r, w')" by blast
  have status: "r = Inr 0 \<or> r = Inl Signalled \<or> r = Inl Blocked"
    using run by (rule process_status)
  have k: "calls (stdout w') = calls (stdout w) @ take n ls"
    using run a f n(2) c1 unfolding ls_def [symmetric]
    by (auto simp: process_run ls_def [symmetric] split: sum.splits)
  have full: "r = Inr 0 \<longrightarrow> n = 19"
    using run a f n(3)
    by (auto simp: process_run ls_def [symmetric] split: sum.splits)
  have nf: "nonfatal (stdout w) \<longrightarrow> r = Inr 0"
  proof
    assume "nonfatal (stdout w)"
    from process_nonfatal [OF this, of h] run show "r = Inr 0" by auto
  qed
  from run n(1) k status full nf show ?thesis unfolding ls_def by blast
qed

text \<open>
  On a file where every write reports an error the run still makes its nineteen calls,
  one for each line, and exits with status 0.
\<close>

theorem single_pass_of_at_most_nineteen_writes_witness:
  "nonfatal (stdout erroring_world)
   \<and> (\<exists>w'. process sample_headers erroring_world = Some (Inr 0, w')
         \<and> calls (stdout w') =
             map (\<lambda>l. l @ ''\<newline>'')
           [''UFFDIO_REGISTER      c020aa00'',
            ''UFFDIO_UNREGISTER    8010aa01'',
            ''UFFDIO_WAKE          8010aa02'',
            ''UFFDIO_COPY          c028aa03'',
            ''UFFDIO_ZEROPAGE      c020aa04'',
            ''UFFDIO_MOVE          c028aa05'',
            ''UFFDIO_WRITEPROTECT  c018aa06'',
            ''UFFDIO_CONTINUE      c020aa07'',
            ''UFFDIO_POISON        c020aa08'',
            ''uffd_msg             32'',
            ''uffdio_api           24'',
            ''uffdio_range         16'',
            ''uffdio_register      32'',
            ''uffdio_copy          40'',
            ''uffdio_zeropage      32'',
            ''uffdio_writeprotect  24'',
            ''uffdio_continue      32'',
            ''uffdio_poison        32'',
            ''uffdio_move          40'']
         \<and> length (calls (stdout w')) = 19)"
proof -
  have ne: "nonfatal (stdout erroring_world)"
    by (simp add: erroring_world_def fresh_stdout_def nonfatal_def list_all_iff)
  have c0: "calls (stdout erroring_world) = []"
    by (simp add: erroring_world_def fresh_stdout_def)
  have lines: "report_lines sample_headers =
           [''UFFDIO_REGISTER      c020aa00'',
            ''UFFDIO_UNREGISTER    8010aa01'',
            ''UFFDIO_WAKE          8010aa02'',
            ''UFFDIO_COPY          c028aa03'',
            ''UFFDIO_ZEROPAGE      c020aa04'',
            ''UFFDIO_MOVE          c028aa05'',
            ''UFFDIO_WRITEPROTECT  c018aa06'',
            ''UFFDIO_CONTINUE      c020aa07'',
            ''UFFDIO_POISON        c020aa08'',
            ''uffd_msg             32'',
            ''uffdio_api           24'',
            ''uffdio_range         16'',
            ''uffdio_register      32'',
            ''uffdio_copy          40'',
            ''uffdio_zeropage      32'',
            ''uffdio_writeprotect  24'',
            ''uffdio_continue      32'',
            ''uffdio_poison        32'',
            ''uffdio_move          40'']"
    unfolding report_lines_def sample_identifier_lines sample_size_lines by simp
  from single_pass_of_at_most_nineteen_writes [of sample_headers erroring_world] ne c0
  obtain w' n where
    "process sample_headers erroring_world = Some (Inr 0, w')" "n = 19"
    "calls (stdout w') = take n (map (\<lambda>l. l @ ''\<newline>'') (report_lines sample_headers))"
    by auto
  then have "process sample_headers erroring_world = Some (Inr 0, w')
         \<and> calls (stdout w') =
             map (\<lambda>l. l @ ''\<newline>'')
           [''UFFDIO_REGISTER      c020aa00'',
            ''UFFDIO_UNREGISTER    8010aa01'',
            ''UFFDIO_WAKE          8010aa02'',
            ''UFFDIO_COPY          c028aa03'',
            ''UFFDIO_ZEROPAGE      c020aa04'',
            ''UFFDIO_MOVE          c028aa05'',
            ''UFFDIO_WRITEPROTECT  c018aa06'',
            ''UFFDIO_CONTINUE      c020aa07'',
            ''UFFDIO_POISON        c020aa08'',
            ''uffd_msg             32'',
            ''uffdio_api           24'',
            ''uffdio_range         16'',
            ''uffdio_register      32'',
            ''uffdio_copy          40'',
            ''uffdio_zeropage      32'',
            ''uffdio_writeprotect  24'',
            ''uffdio_continue      32'',
            ''uffdio_poison        32'',
            ''uffdio_move          40'']
         \<and> length (calls (stdout w')) = 19"
    unfolding lines by simp
  then show ?thesis using ne by (intro conjI exI [of _ w']) simp_all
qed

end
